theory Spec2Isabelle
  imports Main "HOL-Library.Word" "HOL-Library.Signed_Division"
begin

unbundle bit_operations_syntax

section \<open>The OpenCL wrapper class and its driver\<close>

text \<open>
  A shallow embedding of \<^verbatim>\<open>OpenCL.hpp\<close>: the class \<^verbatim>\<open>OpenCLWrapper::OpenCL\<close> and the
  driver's \<^verbatim>\<open>main\<close>. The C++ bindings of the compute API (\<^verbatim>\<open>CL/cl.hpp\<close>), libxml2 and
  \<^verbatim>\<open>stat\<close> are outside the repository: what they answer is an input of the model.
\<close>

subsection \<open>Scalar types and constants of the compute API\<close>

text \<open>
  \<^verbatim>\<open>cl_int\<close> is a 32-bit signed integer that only carries status codes here, \<^verbatim>\<open>long\<close> is
  modelled by \<open>int\<close> (the code only compares, divides and takes remainders by a number
  between 1 and 512, none of which can overflow), \<^verbatim>\<open>size_t\<close>, \<^verbatim>\<open>unsigned long\<close> and
  \<^verbatim>\<open>cl_device_type\<close> (a \<^verbatim>\<open>cl_ulong\<close> bit field) are 64-bit words.
\<close>

type_synonym cl_int = int
type_synonym size_t = "64 word"
type_synonym cl_device_type = "64 word"

definition CL_SUCCESS :: cl_int where "CL_SUCCESS = 0"
definition CL_DEVICE_NOT_FOUND :: cl_int where "CL_DEVICE_NOT_FOUND = - 1"
definition CL_OUT_OF_HOST_MEMORY :: cl_int where "CL_OUT_OF_HOST_MEMORY = - 6"
definition CL_INVALID_OPERATION :: cl_int where "CL_INVALID_OPERATION = - 59"

definition CL_DEVICE_TYPE_DEFAULT :: cl_device_type where "CL_DEVICE_TYPE_DEFAULT = 1"
definition CL_DEVICE_TYPE_CPU :: cl_device_type where "CL_DEVICE_TYPE_CPU = 2"
definition CL_DEVICE_TYPE_GPU :: cl_device_type where "CL_DEVICE_TYPE_GPU = 4"
definition CL_DEVICE_TYPE_ACCELERATOR :: cl_device_type where "CL_DEVICE_TYPE_ACCELERATOR = 8"
definition CL_DEVICE_TYPE_ALL :: cl_device_type where "CL_DEVICE_TYPE_ALL = 0xFFFFFFFF"

subsection \<open>Grid sizes\<close>

text \<open>
  \<^verbatim>\<open>cl::NDRange\<close> holds a number of dimensions (0 to 3) and that many sizes; the
  default-constructed range has no dimension.
\<close>

datatype NDRange =
    NullRange
  | NDRange1 size_t
  | NDRange2 size_t size_t
  | NDRange3 size_t size_t size_t

text \<open>
  The search loop of \<^verbatim>\<open>GetGridSize\<close>:
  \<^verbatim>\<open>for (int i = MaxThreads; i > 0; i--) { if (!(Size % i)) { LocalSize = ...; break; } }\<close>.
  \<^verbatim>\<open>%\<close> and \<^verbatim>\<open>/\<close> truncate towards zero (\<open>smod\<close>, \<open>sdiv\<close>). When the loop runs out, the
  range \<^verbatim>\<open>LocalSize\<close> keeps the value it had.
\<close>

function GetGridSize_loop :: "int \<Rightarrow> int \<Rightarrow> NDRange \<Rightarrow> NDRange" where
  "GetGridSize_loop Size i LocalSize =
     (if i > 0 then
        (if Size smod i = 0 then NDRange2 (word_of_int i) (word_of_int (Size sdiv i))
         else GetGridSize_loop Size (i - 1) LocalSize)
      else LocalSize)"
  by pat_completeness auto
termination
  by (relation "measure (\<lambda>(Size, i, LocalSize). nat i)") auto

declare GetGridSize_loop.simps [simp del]

definition MaxThreads :: int where "MaxThreads = 512"

text \<open>
  \<^verbatim>\<open>GetGridSize\<close> writes through the two references; the model takes their values on entry
  and returns the pair \<open>(LocalSize, GlobalSize)\<close> on exit.
\<close>

definition GetGridSize :: "NDRange \<Rightarrow> NDRange \<Rightarrow> int \<Rightarrow> NDRange \<times> NDRange" where
  "GetGridSize LocalSize GlobalSize Size =
     (let LocalSize' =
            (if Size \<le> MaxThreads then NDRange1 (word_of_int (min MaxThreads Size))
             else GetGridSize_loop Size MaxThreads LocalSize)
      in (LocalSize', NDRange1 (word_of_int Size)))"

subsection \<open>Objects of the compute API\<close>

text \<open>
  A device answers three queries: its type bits, \<^verbatim>\<open>CL_DEVICE_AVAILABLE\<close> and
  \<^verbatim>\<open>CL_DEVICE_COMPILER_AVAILABLE\<close>. A platform is the list of its devices.
\<close>

record Device =
  DEVICE_TYPE :: cl_device_type
  DEVICE_AVAILABLE :: bool
  DEVICE_COMPILER_AVAILABLE :: bool

type_synonym Platform = "Device list"

text \<open>
  \<^verbatim>\<open>cl::Platform::getDevices(type, devices)\<close> of the bindings: the devices of the platform
  that match the type are assigned to the vector; when there is none the call fails with
  \<^verbatim>\<open>CL_DEVICE_NOT_FOUND\<close> and the vector keeps its contents.
\<close>

definition getDevices :: "Platform \<Rightarrow> cl_device_type \<Rightarrow> Device list \<Rightarrow> cl_int \<times> Device list" where
  "getDevices P ty devices =
     (let ids = filter (\<lambda>d. DEVICE_TYPE d AND ty \<noteq> 0) P
      in if ids = [] then (CL_DEVICE_NOT_FOUND, devices) else (CL_SUCCESS, ids))"

text \<open>
  A context remembers the devices it was created for, a queue its context and device;
  each carries the handle the runtime gave it. The default-constructed event is null.
\<close>

datatype Context = Context "Device list" nat
datatype CommandQueue = CommandQueue Context Device nat
datatype Event = NullEvent | Event nat
datatype profiling_info = CL_PROFILING_COMMAND_START | CL_PROFILING_COMMAND_END

text \<open>
  What the runtime and the allocator answer during one call of a public member function.
  Every answer is asked for at most once per call: the platforms,
  whether each \<^verbatim>\<open>new (std::nothrow)\<close> yields an object, the status and handle of each
  object creation, the status and event of the enqueue call, and the event queries.
\<close>

record runtime =
  Platform_get :: "Platform list"
  new_vector :: bool
  new_Context :: bool
  clCreateContext :: "cl_int \<times> nat"
  new_CommandQueue :: bool
  clCreateCommandQueue :: "cl_int \<times> nat"
  clCreateBuffer :: cl_int
  clCreateProgramWithSource :: cl_int
  clBuildProgram :: cl_int
  clCreateKernel :: cl_int
  clEnqueue :: "cl_int \<times> nat"
  clWaitForEvents :: "Event \<Rightarrow> cl_int"
  clGetEventProfilingInfo :: "Event \<Rightarrow> profiling_info \<Rightarrow> cl_int \<times> 64 word"

text \<open>
  The enqueue functions of the bindings store the new event through the event pointer only
  when the command was accepted; otherwise the event object is left as it was.
\<close>

definition enqueue :: "runtime \<Rightarrow> Event \<Rightarrow> cl_int \<times> Event" where
  "enqueue rt event =
     (case clEnqueue rt of (err, tmp) \<Rightarrow>
        (err, if err = CL_SUCCESS then Event tmp else event))"

subsection \<open>The wrapper object\<close>

text \<open>
  A member function ends by returning a status, by a failed \<^verbatim>\<open>assert\<close> (assertions are
  compiled in) or by the \<^verbatim>\<open>std::out_of_range\<close> that \<^verbatim>\<open>vector::at\<close> throws.
\<close>

datatype 'a result = Return 'a | Abort | Throw

text \<open>
  The members of the class. The three pointers are options (\<open>None\<close> is the null pointer);
  \<^verbatim>\<open>mDevice\<close> is an index (\<^verbatim>\<open>unsigned int\<close>, never beyond the size of a device list).
\<close>

record OpenCL =
  mEvent :: Event
  mDevice :: nat
  mContext :: "Context option"
  mBuildOptions :: string
  mQueue :: "CommandQueue option"
  mTargetDevice :: cl_device_type
  mDevices :: "Device list option"

definition OpenCL_ctor :: OpenCL where
  "OpenCL_ctor =
     \<lparr>mEvent = NullEvent, mDevice = 0, mContext = None, mBuildOptions = [],
      mQueue = None, mTargetDevice = CL_DEVICE_TYPE_ALL, mDevices = None\<rparr>"

datatype OpenCLParameters = TargetDevice | BuildOptions | MaxParameters

subsection \<open>Device search\<close>

text \<open>
  The inner loop of \<^verbatim>\<open>BROWSE_DEVICES\<close>, from index \<open>j\<close> on: \<open>Some j\<close> is the
  \<^verbatim>\<open>mDevice = j; return CL_SUCCESS\<close>, \<open>None\<close> is the end of the loop.
\<close>

function BROWSE_DEVICES_j :: "Device list \<Rightarrow> nat \<Rightarrow> nat option" where
  "BROWSE_DEVICES_j devices j =
     (if j < length devices then
        (if DEVICE_AVAILABLE (devices ! j) \<and> DEVICE_COMPILER_AVAILABLE (devices ! j)
         then Some j
         else BROWSE_DEVICES_j devices (Suc j))
      else None)"
  by pat_completeness auto
termination
  by (relation "measure (\<lambda>(devices, j). length devices - j)") auto

declare BROWSE_DEVICES_j.simps [simp del]

text \<open>
  The outer loop of \<^verbatim>\<open>BROWSE_DEVICES(type)\<close>, from platform \<open>i\<close> on, over the contents of
  the vector \<^verbatim>\<open>*mDevices\<close>. The status of \<^verbatim>\<open>getDevices\<close> is ignored, as in the macro.
  \<open>Inl (devices, j)\<close> is the return from the function with the vector and the index
  found, \<open>Inr devices\<close> the end of the loop with the vector as the last call left it.
\<close>

function BROWSE_DEVICES ::
  "cl_device_type \<Rightarrow> Platform list \<Rightarrow> nat \<Rightarrow> Device list \<Rightarrow> (Device list \<times> nat) + Device list" where
  "BROWSE_DEVICES ty Platforms i devices =
     (if i < length Platforms then
        (let devices' = snd (getDevices (Platforms ! i) ty devices)
         in case BROWSE_DEVICES_j devices' 0 of
              Some j \<Rightarrow> Inl (devices', j)
            | None \<Rightarrow> BROWSE_DEVICES ty Platforms (Suc i) devices')
      else Inr devices)"
  by pat_completeness auto
termination
  by (relation "measure (\<lambda>(ty, Platforms, i, devices). length Platforms - i)") auto

declare BROWSE_DEVICES.simps [simp del]

text \<open>
  The guard in front of each class:
  \<^verbatim>\<open>mTargetDevice == CL_DEVICE_TYPE_ALL || mTargetDevice & (CL_DEVICE_TYPE_DEFAULT | type)\<close>.
\<close>

definition permits :: "cl_device_type \<Rightarrow> cl_device_type \<Rightarrow> bool" where
  "permits target ty \<longleftrightarrow>
     target = CL_DEVICE_TYPE_ALL \<or> target AND (CL_DEVICE_TYPE_DEFAULT OR ty) \<noteq> 0"

definition InitializeDevices :: "runtime \<Rightarrow> OpenCL \<Rightarrow> cl_int result \<times> OpenCL" where
  "InitializeDevices rt s =
     (if \<not> new_vector rt then (Return CL_OUT_OF_HOST_MEMORY, s\<lparr>mDevices := None\<rparr>)
      else
        (case (if permits (mTargetDevice s) CL_DEVICE_TYPE_ACCELERATOR
               then BROWSE_DEVICES CL_DEVICE_TYPE_ACCELERATOR (Platform_get rt) 0 []
               else Inr [])
         of Inl (devices, j) \<Rightarrow> (Return CL_SUCCESS, s\<lparr>mDevices := Some devices, mDevice := j\<rparr>)
          | Inr devices1 \<Rightarrow>
        (case (if permits (mTargetDevice s) CL_DEVICE_TYPE_GPU
               then BROWSE_DEVICES CL_DEVICE_TYPE_GPU (Platform_get rt) 0 devices1
               else Inr devices1)
         of Inl (devices, j) \<Rightarrow> (Return CL_SUCCESS, s\<lparr>mDevices := Some devices, mDevice := j\<rparr>)
          | Inr devices2 \<Rightarrow>
        (case (if permits (mTargetDevice s) CL_DEVICE_TYPE_CPU
               then BROWSE_DEVICES CL_DEVICE_TYPE_CPU (Platform_get rt) 0 devices2
               else Inr devices2)
         of Inl (devices, j) \<Rightarrow> (Return CL_SUCCESS, s\<lparr>mDevices := Some devices, mDevice := j\<rparr>)
          | Inr devices3 \<Rightarrow> (Return CL_DEVICE_NOT_FOUND, s\<lparr>mDevices := None\<rparr>)))))"

subsection \<open>Lazy initialisation\<close>

text \<open>
  The macro \<^verbatim>\<open>INIT(type)\<close>: \<open>Some r\<close> makes the enclosing function end with \<open>r\<close>,
  \<open>None\<close> lets it go on.
\<close>

definition INIT ::
  "bool \<Rightarrow> (OpenCL \<Rightarrow> cl_int result \<times> OpenCL) \<Rightarrow> OpenCL \<Rightarrow> cl_int result option \<times> OpenCL" where
  "INIT is_null Initialize s =
     (if is_null then
        (case Initialize s of
           (Return Error, s') \<Rightarrow> if Error \<noteq> CL_SUCCESS then (Some (Return Error), s') else (None, s')
         | (r, s') \<Rightarrow> (Some r, s'))
      else (None, s))"

definition InitializeContext :: "runtime \<Rightarrow> OpenCL \<Rightarrow> cl_int result \<times> OpenCL" where
  "InitializeContext rt s =
     (case INIT (mDevices s = None) (InitializeDevices rt) s of
        (Some r, s1) \<Rightarrow> (r, s1)
      | (None, s1) \<Rightarrow>
          (case mDevices s1 of
             None \<Rightarrow> (Abort, s1)
           | Some devices \<Rightarrow>
               if \<not> new_Context rt then (Return CL_OUT_OF_HOST_MEMORY, s1\<lparr>mContext := None\<rparr>)
               else
                 (case clCreateContext rt of (Error, handle) \<Rightarrow>
                    if Error \<noteq> CL_SUCCESS then (Return Error, s1\<lparr>mContext := None\<rparr>)
                    else (Return Error, s1\<lparr>mContext := Some (Context devices handle)\<rparr>))))"

text \<open>
  In \<^verbatim>\<open>InitializeQueue\<close> the allocation comes before the arguments of the constructor,
  among them \<^verbatim>\<open>mDevices->at(mDevice)\<close>, are evaluated; when the allocation gives null the
  constructor is not called.
\<close>

definition InitializeQueue :: "runtime \<Rightarrow> OpenCL \<Rightarrow> cl_int result \<times> OpenCL" where
  "InitializeQueue rt s =
     (case INIT (mContext s = None) (InitializeContext rt) s of
        (Some r, s1) \<Rightarrow> (r, s1)
      | (None, s1) \<Rightarrow>
          (case mDevices s1 of
             None \<Rightarrow> (Abort, s1)
           | Some devices \<Rightarrow>
          (case mContext s1 of
             None \<Rightarrow> (Abort, s1)
           | Some context \<Rightarrow>
               if \<not> new_CommandQueue rt
               then (Return CL_OUT_OF_HOST_MEMORY, s1\<lparr>mQueue := None\<rparr>)
               else if \<not> mDevice s1 < length devices then (Throw, s1)
               else
                 (case clCreateCommandQueue rt of (Error, handle) \<Rightarrow>
                    if Error \<noteq> CL_SUCCESS then (Return Error, s1\<lparr>mQueue := None\<rparr>)
                    else (Return Error,
                          s1\<lparr>mQueue := Some (CommandQueue context (devices ! mDevice s1) handle)\<rparr>)))))"

subsection \<open>Public member functions\<close>

text \<open>
  The buffer, program and kernel objects that some functions write through a reference
  parameter are objects of the bindings, not members of the wrapper: the model keeps the
  status and the members. Overloads that only read a file or measure a string before they
  call another overload are the function they call.
\<close>

definition AllocateBuffer :: "runtime \<Rightarrow> nat \<Rightarrow> OpenCL \<Rightarrow> cl_int result \<times> OpenCL" where
  "AllocateBuffer rt Size s =
     (case INIT (mContext s = None) (InitializeContext rt) s of
        (Some r, s1) \<Rightarrow> (r, s1)
      | (None, s1) \<Rightarrow>
          if mDevices s1 = None then (Abort, s1)
          else if mContext s1 = None then (Abort, s1)
          else (Return (clCreateBuffer rt), s1))"

text \<open>\<^verbatim>\<open>GetUsedDevice\<close> also gives the device it copies into \<^verbatim>\<open>UsedDevice\<close>.\<close>

definition GetUsedDevice :: "runtime \<Rightarrow> OpenCL \<Rightarrow> (cl_int result \<times> OpenCL) \<times> Device option" where
  "GetUsedDevice rt s =
     (case INIT (mDevices s = None) (InitializeDevices rt) s of
        (Some r, s1) \<Rightarrow> ((r, s1), None)
      | (None, s1) \<Rightarrow>
          (case mDevices s1 of
             None \<Rightarrow> ((Abort, s1), None)
           | Some devices \<Rightarrow>
               if \<not> mDevice s1 < length devices then ((Throw, s1), None)
               else ((Return CL_SUCCESS, s1), Some (devices ! mDevice s1))))"

definition GetProgramFromSource :: "runtime \<Rightarrow> string \<Rightarrow> OpenCL \<Rightarrow> cl_int result \<times> OpenCL" where
  "GetProgramFromSource rt Source s =
     (case INIT (mContext s = None) (InitializeContext rt) s of
        (Some r, s1) \<Rightarrow> (r, s1)
      | (None, s1) \<Rightarrow>
          if mDevices s1 = None then (Abort, s1)
          else if mContext s1 = None then (Abort, s1)
          else if clCreateProgramWithSource rt \<noteq> CL_SUCCESS
          then (Return (clCreateProgramWithSource rt), s1)
          else (Return (clBuildProgram rt), s1))"

definition GetKernelFromProgram :: "runtime \<Rightarrow> string \<Rightarrow> OpenCL \<Rightarrow> cl_int result \<times> OpenCL" where
  "GetKernelFromProgram rt KernelName s = (Return (clCreateKernel rt), s)"

definition GetKernelFromSource ::
  "runtime \<Rightarrow> string \<Rightarrow> string \<Rightarrow> OpenCL \<Rightarrow> cl_int result \<times> OpenCL" where
  "GetKernelFromSource rt Source KernelName s =
     (case GetProgramFromSource rt Source s of
        (Return Error, s1) \<Rightarrow>
          if Error \<noteq> CL_SUCCESS then (Return Error, s1)
          else GetKernelFromProgram rt KernelName s1
      | (r, s1) \<Rightarrow> (r, s1))"

text \<open>
  \<^verbatim>\<open>ExecuteKernelFromKernelEx\<close>: the variadic overload sets one kernel argument and
  recurses with the next position; the last overload initialises the queue, computes the
  grid and enqueues the kernel, with \<^verbatim>\<open>&mEvent\<close> as the event pointer.
\<close>

fun ExecuteKernelFromKernelEx ::
  "runtime \<Rightarrow> int \<Rightarrow> int \<Rightarrow> 'arg list \<Rightarrow> OpenCL \<Rightarrow> cl_int result \<times> OpenCL" where
  "ExecuteKernelFromKernelEx rt DataSize Position [] s =
     (case INIT (mQueue s = None) (InitializeQueue rt) s of
        (Some r, s1) \<Rightarrow> (r, s1)
      | (None, s1) \<Rightarrow>
          if mDevices s1 = None then (Abort, s1)
          else if mContext s1 = None then (Abort, s1)
          else if mQueue s1 = None then (Abort, s1)
          else
            (case GetGridSize NullRange NullRange DataSize of (LocalSize, GlobalSize) \<Rightarrow>
             case enqueue rt (mEvent s1) of (Error, event) \<Rightarrow>
               (Return Error, s1\<lparr>mEvent := event\<rparr>)))"
| "ExecuteKernelFromKernelEx rt DataSize Position (KernelArg # KernelArgs) s =
     ExecuteKernelFromKernelEx rt DataSize (Position + 1) KernelArgs s"

definition ExecuteKernelFromKernel ::
  "runtime \<Rightarrow> int \<Rightarrow> 'arg list \<Rightarrow> OpenCL \<Rightarrow> cl_int result \<times> OpenCL" where
  "ExecuteKernelFromKernel rt DataSize KernelArgs s =
     ExecuteKernelFromKernelEx rt DataSize 0 KernelArgs s"

definition ExecuteKernelFromProgram ::
  "runtime \<Rightarrow> string \<Rightarrow> int \<Rightarrow> 'arg list \<Rightarrow> OpenCL \<Rightarrow> cl_int result \<times> OpenCL" where
  "ExecuteKernelFromProgram rt KernelName DataSize KernelArgs s =
     (case GetKernelFromProgram rt KernelName s of
        (Return Error, s1) \<Rightarrow>
          if Error \<noteq> CL_SUCCESS then (Return Error, s1)
          else ExecuteKernelFromKernelEx rt DataSize 0 KernelArgs s1
      | (r, s1) \<Rightarrow> (r, s1))"

definition ExecuteKernelFromSource ::
  "runtime \<Rightarrow> string \<Rightarrow> string \<Rightarrow> int \<Rightarrow> 'arg list \<Rightarrow> OpenCL \<Rightarrow> cl_int result \<times> OpenCL" where
  "ExecuteKernelFromSource rt Source KernelName DataSize KernelArgs s =
     (case GetKernelFromSource rt Source KernelName s of
        (Return Error, s1) \<Rightarrow>
          if Error \<noteq> CL_SUCCESS then (Return Error, s1)
          else ExecuteKernelFromKernelEx rt DataSize 0 KernelArgs s1
      | (r, s1) \<Rightarrow> (r, s1))"

definition ReadBuffer :: "runtime \<Rightarrow> nat \<Rightarrow> OpenCL \<Rightarrow> cl_int result \<times> OpenCL" where
  "ReadBuffer rt Size s =
     (case INIT (mQueue s = None) (InitializeQueue rt) s of
        (Some r, s1) \<Rightarrow> (r, s1)
      | (None, s1) \<Rightarrow>
          if mDevices s1 = None then (Abort, s1)
          else if mContext s1 = None then (Abort, s1)
          else if mQueue s1 = None then (Abort, s1)
          else
            (case enqueue rt (mEvent s1) of (Error, event) \<Rightarrow>
               (Return Error, s1\<lparr>mEvent := event\<rparr>)))"

definition WriteBuffer :: "runtime \<Rightarrow> nat \<Rightarrow> OpenCL \<Rightarrow> cl_int result \<times> OpenCL" where
  "WriteBuffer rt Size s =
     (case INIT (mQueue s = None) (InitializeQueue rt) s of
        (Some r, s1) \<Rightarrow> (r, s1)
      | (None, s1) \<Rightarrow>
          if mDevices s1 = None then (Abort, s1)
          else if mContext s1 = None then (Abort, s1)
          else if mQueue s1 = None then (Abort, s1)
          else
            (case enqueue rt (mEvent s1) of (Error, event) \<Rightarrow>
               (Return Error, s1\<lparr>mEvent := event\<rparr>)))"

text \<open>The two overloads of \<^verbatim>\<open>SetParameter\<close>, for an \<^verbatim>\<open>unsigned long\<close> and for a string.\<close>

definition SetParameter :: "OpenCLParameters \<Rightarrow> 64 word \<Rightarrow> OpenCL \<Rightarrow> cl_int \<times> OpenCL" where
  "SetParameter Parameter Value s =
     (case Parameter of
        TargetDevice \<Rightarrow>
          if mDevices s = None then
            (if Value = CL_DEVICE_TYPE_ALL \<or>
                Value \<le> (CL_DEVICE_TYPE_DEFAULT OR CL_DEVICE_TYPE_CPU OR
                          CL_DEVICE_TYPE_GPU OR CL_DEVICE_TYPE_ACCELERATOR)
             then (CL_SUCCESS, s\<lparr>mTargetDevice := Value\<rparr>)
             else (CL_INVALID_OPERATION, s))
          else (CL_INVALID_OPERATION, s)
      | _ \<Rightarrow> (CL_INVALID_OPERATION, s))"

definition SetParameter_string :: "OpenCLParameters \<Rightarrow> string \<Rightarrow> OpenCL \<Rightarrow> cl_int \<times> OpenCL" where
  "SetParameter_string Parameter Value s =
     (case Parameter of
        BuildOptions \<Rightarrow> (CL_SUCCESS, s\<lparr>mBuildOptions := Value\<rparr>)
      | _ \<Rightarrow> (CL_INVALID_OPERATION, s))"

definition WaitForLastEvent :: "runtime \<Rightarrow> OpenCL \<Rightarrow> cl_int" where
  "WaitForLastEvent rt s = clWaitForEvents rt (mEvent s)"

text \<open>
  \<^verbatim>\<open>GetLastElapsedTime\<close> stores \<^verbatim>\<open>End - Start\<close>, a subtraction of doubles; the model gives
  the two values read from the event instead of the difference.
\<close>

definition GetLastElapsedTime :: "runtime \<Rightarrow> OpenCL \<Rightarrow> cl_int \<times> (64 word \<times> 64 word) option" where
  "GetLastElapsedTime rt s =
     (case clGetEventProfilingInfo rt (mEvent s) CL_PROFILING_COMMAND_START of (Error, Start) \<Rightarrow>
        if Error \<noteq> CL_SUCCESS then (Error, None)
        else
          (case clGetEventProfilingInfo rt (mEvent s) CL_PROFILING_COMMAND_END of (Error, End) \<Rightarrow>
             if Error \<noteq> CL_SUCCESS then (Error, None)
             else (CL_SUCCESS, Some (Start, End))))"

text \<open>A call of a public member function, and a sequence of calls on one object.\<close>

datatype 'arg operation =
    Op_AllocateBuffer nat
  | Op_GetUsedDevice
  | Op_GetProgramFromSource string
  | Op_GetKernelFromSource string string
  | Op_GetKernelFromProgram string
  | Op_GetLastElapsedTime
  | Op_ExecuteKernelFromSource string string int "'arg list"
  | Op_ExecuteKernelFromProgram string int "'arg list"
  | Op_ExecuteKernelFromKernel int "'arg list"
  | Op_ReadBuffer nat
  | Op_SetParameter OpenCLParameters "64 word"
  | Op_SetParameter_string OpenCLParameters string
  | Op_WaitForLastEvent
  | Op_WriteBuffer nat

fun call :: "runtime \<Rightarrow> 'arg operation \<Rightarrow> OpenCL \<Rightarrow> cl_int result \<times> OpenCL" where
  "call rt (Op_AllocateBuffer Size) s = AllocateBuffer rt Size s"
| "call rt Op_GetUsedDevice s = fst (GetUsedDevice rt s)"
| "call rt (Op_GetProgramFromSource Source) s = GetProgramFromSource rt Source s"
| "call rt (Op_GetKernelFromSource Source KernelName) s = GetKernelFromSource rt Source KernelName s"
| "call rt (Op_GetKernelFromProgram KernelName) s = GetKernelFromProgram rt KernelName s"
| "call rt Op_GetLastElapsedTime s = (Return (fst (GetLastElapsedTime rt s)), s)"
| "call rt (Op_ExecuteKernelFromSource Source KernelName DataSize KernelArgs) s =
     ExecuteKernelFromSource rt Source KernelName DataSize KernelArgs s"
| "call rt (Op_ExecuteKernelFromProgram KernelName DataSize KernelArgs) s =
     ExecuteKernelFromProgram rt KernelName DataSize KernelArgs s"
| "call rt (Op_ExecuteKernelFromKernel DataSize KernelArgs) s =
     ExecuteKernelFromKernel rt DataSize KernelArgs s"
| "call rt (Op_ReadBuffer Size) s = ReadBuffer rt Size s"
| "call rt (Op_SetParameter Parameter Value) s =
     (case SetParameter Parameter Value s of (Error, s') \<Rightarrow> (Return Error, s'))"
| "call rt (Op_SetParameter_string Parameter Value) s =
     (case SetParameter_string Parameter Value s of (Error, s') \<Rightarrow> (Return Error, s'))"
| "call rt Op_WaitForLastEvent s = (Return (WaitForLastEvent rt s), s)"
| "call rt (Op_WriteBuffer Size) s = WriteBuffer rt Size s"

text \<open>
  The object after a sequence of calls, each with the answers of the runtime during it.
  A call that ends in a failed assertion or an exception ends the sequence.
\<close>

fun calls :: "(runtime \<times> 'arg operation) list \<Rightarrow> OpenCL \<Rightarrow> OpenCL" where
  "calls [] s = s"
| "calls ((rt, op) # rest) s =
     (case call rt op s of
        (Return Error, s') \<Rightarrow> calls rest s'
      | (r, s') \<Rightarrow> s')"

subsection \<open>The driver\<close>

datatype xmlXPathObjectType =
  XPATH_UNDEFINED | XPATH_NODESET | XPATH_BOOLEAN | XPATH_NUMBER | XPATH_STRING

record xmlXPathObject =
  xpath_type :: xmlXPathObjectType
  stringval :: "string option"

text \<open>
  What libxml2 and the file system answer: a document for a file name, an XPath context
  for a document, an object for an expression in a context (each may be null), and the
  status of \<^verbatim>\<open>stat\<close> for a path.
\<close>

record ('doc, 'ctx) system =
  xmlReadFile :: "string \<Rightarrow> 'doc option"
  xmlXPathNewContext :: "'doc \<Rightarrow> 'ctx option"
  xmlXPathEval :: "string \<Rightarrow> 'ctx \<Rightarrow> xmlXPathObject option"
  stat :: "string \<Rightarrow> int"

record KernelDef =
  Name :: string
  File :: string
  Target :: cl_device_type

text \<open>
  The test the driver makes on each result of \<^verbatim>\<open>xmlXPathEval\<close>: a non-null object of
  type \<^verbatim>\<open>XPATH_STRING\<close> whose string is non-null and not empty; it gives that string.
\<close>

definition string_value :: "xmlXPathObject option \<Rightarrow> string option" where
  "string_value XmlObject =
     (case XmlObject of
        None \<Rightarrow> None
      | Some obj \<Rightarrow>
          if xpath_type obj = XPATH_STRING then
            (case stringval obj of
               None \<Rightarrow> None
             | Some str \<Rightarrow> if str \<noteq> [] then Some str else None)
          else None)"

definition PrintUsage :: "string \<Rightarrow> int" where
  "PrintUsage ProgName = 0"

text \<open>
  \<^verbatim>\<open>main\<close>, with \<^verbatim>\<open>argc\<close> the length of \<^verbatim>\<open>argv\<close>. It gives how the program ends, and the
  kernel definition and the wrapper object at that moment. What it prints is not modelled.
\<close>

definition main :: "('doc, 'ctx) system \<Rightarrow> string list \<Rightarrow> int result \<times> KernelDef \<times> OpenCL" where
  "main sys argv =
     (let OclObject = OpenCL_ctor;
          Kernel = \<lparr>Name = [], File = [], Target = CL_DEVICE_TYPE_ALL\<rparr>
      in
      if length argv \<noteq> 2 then (Return (PrintUsage (argv ! 0)), Kernel, OclObject)
      else
        let ConfigFile = argv ! 1 in
        (case xmlReadFile sys ConfigFile of
           None \<Rightarrow> (Return (- 1), Kernel, OclObject)
         | Some XmlFile \<Rightarrow>
        (case xmlXPathNewContext sys XmlFile of
           None \<Rightarrow> (Return (- 2), Kernel, OclObject)
         | Some XmlContext \<Rightarrow>
        let Kernel =
              (case string_value (xmlXPathEval sys ''string(/kernel/@file)'' XmlContext) of
                 Some str \<Rightarrow> Kernel\<lparr>File := str\<rparr>
               | None \<Rightarrow> Kernel)
        in
        if File Kernel = [] then (Return (- 3), Kernel, OclObject)
        else if stat sys (File Kernel) \<noteq> 0 then (Return (- 3), Kernel, OclObject)
        else
          let Kernel =
                (case string_value (xmlXPathEval sys ''string(/kernel/@name)'' XmlContext) of
                   Some str \<Rightarrow> Kernel\<lparr>Name := str\<rparr>
                 | None \<Rightarrow> Kernel)
          in
          if Name Kernel = [] then (Return (- 3), Kernel, OclObject)
          else
            let Kernel =
                  (case string_value
                          (xmlXPathEval sys ''string(/kernel/target/@type)'' XmlContext) of
                     Some Type \<Rightarrow>
                       if Type = ''cpu'' then Kernel\<lparr>Target := CL_DEVICE_TYPE_CPU\<rparr>
                       else if Type = ''gpu'' then Kernel\<lparr>Target := CL_DEVICE_TYPE_GPU\<rparr>
                       else if Type = ''accelerator''
                       then Kernel\<lparr>Target := CL_DEVICE_TYPE_ACCELERATOR\<rparr>
                       else Kernel
                   | None \<Rightarrow> Kernel);
                OclObject = snd (SetParameter TargetDevice (Target Kernel) OclObject)
            in (Abort, Kernel, OclObject))))"

subsection \<open>Concrete inputs\<close>

text \<open>
  Answers of libxml2 and the file system for three configuration files: one that cannot
  be read, one that names the kernel file \<^verbatim>\<open>kernel.cl\<close>, the kernel \<^verbatim>\<open>add\<close> and the target
  \<^verbatim>\<open>gpu\<close>, and one that lacks the kernel name. Documents and contexts are numbered.
\<close>

definition string_object :: "string \<Rightarrow> xmlXPathObject option" where
  "string_object str = Some \<lparr>xpath_type = XPATH_STRING, stringval = Some str\<rparr>"

definition unreadable_config :: "(nat, nat) system" where
  "unreadable_config =
     \<lparr>xmlReadFile = (\<lambda>name. None),
      xmlXPathNewContext = (\<lambda>doc. Some doc),
      xmlXPathEval = (\<lambda>expr ctx. string_object []),
      stat = (\<lambda>path. - 1)\<rparr>"

definition gpu_config :: "(nat, nat) system" where
  "gpu_config =
     \<lparr>xmlReadFile = (\<lambda>name. if name = ''config.xml'' then Some 1 else None),
      xmlXPathNewContext = (\<lambda>doc. Some doc),
      xmlXPathEval = (\<lambda>expr ctx.
         if expr = ''string(/kernel/@file)'' then string_object ''kernel.cl''
         else if expr = ''string(/kernel/@name)'' then string_object ''add''
         else if expr = ''string(/kernel/target/@type)'' then string_object ''gpu''
         else None),
      stat = (\<lambda>path. if path = ''kernel.cl'' then 0 else - 1)\<rparr>"

definition nameless_config :: "(nat, nat) system" where
  "nameless_config =
     \<lparr>xmlReadFile = (\<lambda>name. if name = ''config.xml'' then Some 1 else None),
      xmlXPathNewContext = (\<lambda>doc. Some doc),
      xmlXPathEval = (\<lambda>expr ctx.
         if expr = ''string(/kernel/@file)'' then string_object ''kernel.cl''
         else string_object []),
      stat = (\<lambda>path. if path = ''kernel.cl'' then 0 else - 1)\<rparr>"

text \<open>
  Answers of the runtime: a machine with one platform that holds an unavailable
  accelerator, a GPU without compiler, a usable GPU and a usable CPU, on which every
  creation and every enqueue succeeds; and a machine without any platform.
\<close>

definition accelerator_off :: Device where
  "accelerator_off =
     \<lparr>DEVICE_TYPE = CL_DEVICE_TYPE_ACCELERATOR, DEVICE_AVAILABLE = False,
      DEVICE_COMPILER_AVAILABLE = True\<rparr>"

definition gpu_no_compiler :: Device where
  "gpu_no_compiler =
     \<lparr>DEVICE_TYPE = CL_DEVICE_TYPE_GPU, DEVICE_AVAILABLE = True,
      DEVICE_COMPILER_AVAILABLE = False\<rparr>"

definition gpu_ok :: Device where
  "gpu_ok =
     \<lparr>DEVICE_TYPE = CL_DEVICE_TYPE_GPU, DEVICE_AVAILABLE = True,
      DEVICE_COMPILER_AVAILABLE = True\<rparr>"

definition cpu_ok :: Device where
  "cpu_ok =
     \<lparr>DEVICE_TYPE = CL_DEVICE_TYPE_CPU, DEVICE_AVAILABLE = True,
      DEVICE_COMPILER_AVAILABLE = True\<rparr>"

definition workstation :: runtime where
  "workstation =
     \<lparr>Platform_get = [[cpu_ok, accelerator_off, gpu_no_compiler, gpu_ok]],
      new_vector = True,
      new_Context = True,
      clCreateContext = (CL_SUCCESS, 1),
      new_CommandQueue = True,
      clCreateCommandQueue = (CL_SUCCESS, 2),
      clCreateBuffer = CL_SUCCESS,
      clCreateProgramWithSource = CL_SUCCESS,
      clBuildProgram = CL_SUCCESS,
      clCreateKernel = CL_SUCCESS,
      clEnqueue = (CL_SUCCESS, 7),
      clWaitForEvents = (\<lambda>event. CL_SUCCESS),
      clGetEventProfilingInfo = (\<lambda>event info. (CL_SUCCESS, 0))\<rparr>"

definition no_platform :: runtime where
  "no_platform = workstation\<lparr>Platform_get := []\<rparr>"

text \<open>
  The same machine when the creation of the context, the creation of the queue or the
  enqueue call fails for lack of host memory.
\<close>

definition context_failure :: runtime where
  "context_failure = workstation\<lparr>clCreateContext := (CL_OUT_OF_HOST_MEMORY, 0)\<rparr>"

definition queue_failure :: runtime where
  "queue_failure = workstation\<lparr>clCreateCommandQueue := (CL_OUT_OF_HOST_MEMORY, 0)\<rparr>"

definition enqueue_failure :: runtime where
  "enqueue_failure = workstation\<lparr>clEnqueue := (CL_OUT_OF_HOST_MEMORY, 0)\<rparr>"

text \<open>The object on that machine once a device is selected, and once the queue exists.\<close>

definition with_devices :: OpenCL where
  "with_devices = OpenCL_ctor\<lparr>mDevices := Some [gpu_no_compiler, gpu_ok], mDevice := 1\<rparr>"

definition with_context :: OpenCL where
  "with_context =
     with_devices\<lparr>mContext := Some (Context [gpu_no_compiler, gpu_ok] 1)\<rparr>"

definition with_queue :: OpenCL where
  "with_queue =
     with_context\<lparr>mQueue :=
       Some (CommandQueue (Context [gpu_no_compiler, gpu_ok] 1) gpu_ok 2)\<rparr>"

subsection \<open>The words of the specification\<close>

text \<open>
  The calls that enqueue a command: kernel execution, buffer read and buffer write.
\<close>

fun enqueuing :: "'arg operation \<Rightarrow> bool" where
  "enqueuing (Op_ExecuteKernelFromSource Source KernelName DataSize KernelArgs) = True"
| "enqueuing (Op_ExecuteKernelFromProgram KernelName DataSize KernelArgs) = True"
| "enqueuing (Op_ExecuteKernelFromKernel DataSize KernelArgs) = True"
| "enqueuing (Op_ReadBuffer Size) = True"
| "enqueuing (Op_WriteBuffer Size) = True"
| "enqueuing _ = False"

text \<open>
  The members that are created lazily stay as they are from \<open>s\<close> to \<open>s'\<close>, once they
  are not null: the device list with the selected index, the context and the queue.
\<close>

definition members_kept :: "OpenCL \<Rightarrow> OpenCL \<Rightarrow> bool" where
  "members_kept s s' \<longleftrightarrow>
     (mDevices s \<noteq> None \<longrightarrow> mDevices s' = mDevices s \<and> mDevice s' = mDevice s) \<and>
     (mContext s \<noteq> None \<longrightarrow> mContext s' = mContext s) \<and>
     (mQueue s \<noteq> None \<longrightarrow> mQueue s' = mQueue s)"

text \<open>The divisor the specification names: the largest one between 1 and 512.\<close>

definition largest_divisor :: "int \<Rightarrow> int \<Rightarrow> bool" where
  "largest_divisor Size d \<longleftrightarrow>
     1 \<le> d \<and> d \<le> 512 \<and> d dvd Size \<and> (\<forall>e \<in> {1..512}. e dvd Size \<longrightarrow> e \<le> d)"

text \<open>
  The device search as the specification describes it. A device is suitable when it is
  available and has a compiler. The classes are taken in the order accelerator, GPU, CPU,
  those the target permits; within a class the platforms in their order; each platform
  gives the list of its devices of the class. The first list that holds a suitable device
  is selected, with the index of its first suitable device.
\<close>

definition suitable :: "Device \<Rightarrow> bool" where
  "suitable d \<longleftrightarrow> DEVICE_AVAILABLE d \<and> DEVICE_COMPILER_AVAILABLE d"

definition devices_of_class :: "cl_device_type \<Rightarrow> Platform \<Rightarrow> Device list" where
  "devices_of_class ty P = filter (\<lambda>d. DEVICE_TYPE d AND ty \<noteq> 0) P"

definition search_order :: "cl_device_type \<Rightarrow> cl_device_type list" where
  "search_order target =
     filter (permits target)
       [CL_DEVICE_TYPE_ACCELERATOR, CL_DEVICE_TYPE_GPU, CL_DEVICE_TYPE_CPU]"

definition encountered :: "cl_device_type \<Rightarrow> Platform list \<Rightarrow> Device list list" where
  "encountered target Platforms =
     concat (map (\<lambda>ty. map (devices_of_class ty) Platforms) (search_order target))"

definition first_suitable :: "Device list list \<Rightarrow> (Device list \<times> nat) option" where
  "first_suitable candidates =
     (case find (\<lambda>devices. \<exists>d \<in> set devices. suitable d) candidates of
        None \<Rightarrow> None
      | Some devices \<Rightarrow> Some (devices, length (takeWhile (\<lambda>d. \<not> suitable d) devices)))"

text \<open>
  The lazy creation as the specification describes it: what the object is once a member
  function that needs the device list, the context or the queue has looked for it. A member
  that is not null is left alone. A null device list becomes the first suitable list of
  the search, with the index found, when the vector is allocated and the search finds a
  device. A null context is created for the device list, after the device list has been
  looked for, when the allocation and the runtime succeed. A null queue is created for the
  context and the selected device, after the context has been looked for, when the
  allocation and the runtime succeed. A step that fails leaves its member null.
\<close>

definition lazy_devices :: "runtime \<Rightarrow> OpenCL \<Rightarrow> OpenCL" where
  "lazy_devices rt s =
     (if mDevices s \<noteq> None then s
      else if \<not> new_vector rt then s
      else
        (case first_suitable (encountered (mTargetDevice s) (Platform_get rt)) of
           None \<Rightarrow> s
         | Some (devices, j) \<Rightarrow> s\<lparr>mDevices := Some devices, mDevice := j\<rparr>))"

definition lazy_context :: "runtime \<Rightarrow> OpenCL \<Rightarrow> OpenCL" where
  "lazy_context rt s =
     (if mContext s \<noteq> None then s
      else
        (let s1 = lazy_devices rt s in
         case mDevices s1 of
           None \<Rightarrow> s1
         | Some devices \<Rightarrow>
             if new_Context rt \<and> fst (clCreateContext rt) = CL_SUCCESS
             then s1\<lparr>mContext := Some (Context devices (snd (clCreateContext rt)))\<rparr>
             else s1))"

definition lazy_queue :: "runtime \<Rightarrow> OpenCL \<Rightarrow> OpenCL" where
  "lazy_queue rt s =
     (if mQueue s \<noteq> None then s
      else
        (let s1 = lazy_context rt s in
         case mDevices s1 of
           None \<Rightarrow> s1
         | Some devices \<Rightarrow>
        (case mContext s1 of
           None \<Rightarrow> s1
         | Some context \<Rightarrow>
             if new_CommandQueue rt \<and> mDevice s1 < length devices \<and>
                fst (clCreateCommandQueue rt) = CL_SUCCESS
             then s1\<lparr>mQueue := Some (CommandQueue context (devices ! mDevice s1)
                                         (snd (clCreateCommandQueue rt)))\<rparr>
             else s1)))"

text \<open>
  The members each public member function needs: the used device needs the device list;
  a buffer, a program and a kernel built from source need the context; a buffer read, a
  buffer write and a kernel execution need the queue. An execution from source needs the
  context for the program and then, when program and kernel were obtained, the queue; an
  execution from a program needs the queue when the kernel was obtained. The other
  functions need none.
\<close>

fun first_use :: "runtime \<Rightarrow> 'arg operation \<Rightarrow> OpenCL \<Rightarrow> OpenCL" where
  "first_use rt Op_GetUsedDevice s = lazy_devices rt s"
| "first_use rt (Op_AllocateBuffer Size) s = lazy_context rt s"
| "first_use rt (Op_GetProgramFromSource Source) s = lazy_context rt s"
| "first_use rt (Op_GetKernelFromSource Source KernelName) s = lazy_context rt s"
| "first_use rt (Op_ExecuteKernelFromSource Source KernelName DataSize KernelArgs) s =
     (let s1 = lazy_context rt s in
      if mDevices s1 \<noteq> None \<and> mContext s1 \<noteq> None \<and>
         clCreateProgramWithSource rt = CL_SUCCESS \<and> clBuildProgram rt = CL_SUCCESS \<and>
         clCreateKernel rt = CL_SUCCESS
      then lazy_queue rt s1 else s1)"
| "first_use rt (Op_ExecuteKernelFromProgram KernelName DataSize KernelArgs) s =
     (if clCreateKernel rt = CL_SUCCESS then lazy_queue rt s else s)"
| "first_use rt (Op_ExecuteKernelFromKernel DataSize KernelArgs) s = lazy_queue rt s"
| "first_use rt (Op_ReadBuffer Size) s = lazy_queue rt s"
| "first_use rt (Op_WriteBuffer Size) s = lazy_queue rt s"
| "first_use rt _ s = s"

section \<open>Properties of the grid-size heuristic\<close>

lemmas cl_status_defs =
  CL_SUCCESS_def CL_DEVICE_NOT_FOUND_def CL_OUT_OF_HOST_MEMORY_def CL_INVALID_OPERATION_def

lemmas cl_device_type_defs =
  CL_DEVICE_TYPE_DEFAULT_def CL_DEVICE_TYPE_CPU_def CL_DEVICE_TYPE_GPU_def
  CL_DEVICE_TYPE_ACCELERATOR_def CL_DEVICE_TYPE_ALL_def

lemma smod_pos_eq_0_iff:
  fixes k l :: int
  assumes "0 < k" "0 < l"
  shows "k smod l = 0 \<longleftrightarrow> l dvd k"
  using assms by (simp add: signed_modulo_int_def dvd_eq_mod_eq_0 sgn_if)

lemma sdiv_pos_eq_div:
  fixes k l :: int
  assumes "0 < k" "0 < l"
  shows "k sdiv l = k div l"
  using assms by (simp add: signed_divide_int_def sgn_if)

lemma GetGridSize_loop_finds:
  assumes "0 < Size" "1 \<le> i"
  shows "\<exists>d. 1 \<le> d \<and> d \<le> i \<and> d dvd Size \<and> (\<forall>e. d < e \<and> e \<le> i \<longrightarrow> \<not> e dvd Size) \<and>
             GetGridSize_loop Size i L = NDRange2 (word_of_int d) (word_of_int (Size div d))"
  using assms
proof (induction Size i L rule: GetGridSize_loop.induct)
  case (1 Size i L)
  note pos = \<open>0 < Size\<close> and i1 = \<open>1 \<le> i\<close>
  show ?case
  proof (cases "Size smod i = 0")
    case True
    with pos i1 have dv: "i dvd Size" by (simp add: smod_pos_eq_0_iff)
    have run: "GetGridSize_loop Size i L = NDRange2 (word_of_int i) (word_of_int (Size div i))"
      using pos i1 True by (simp add: GetGridSize_loop.simps [of Size i] sdiv_pos_eq_div)
    have "\<forall>e. i < e \<and> e \<le> i \<longrightarrow> \<not> e dvd Size" by auto
    with dv run i1 show ?thesis by blast
  next
    case False
    with pos i1 have nd: "\<not> i dvd Size" by (simp add: smod_pos_eq_0_iff)
    then have "i \<noteq> 1" by auto
    with i1 have i: "1 \<le> i - 1" "0 < i" by simp_all
    from "1.IH" [OF i(2) False pos i(1)] obtain d where d: "1 \<le> d" "d \<le> i - 1" "d dvd Size"
      "\<forall>e. d < e \<and> e \<le> i - 1 \<longrightarrow> \<not> e dvd Size"
      "GetGridSize_loop Size (i - 1) L = NDRange2 (word_of_int d) (word_of_int (Size div d))"
      by blast
    have run: "GetGridSize_loop Size i L = NDRange2 (word_of_int d) (word_of_int (Size div d))"
      using i(2) False d(5) by (simp add: GetGridSize_loop.simps [of Size i])
    have above: "\<forall>e. d < e \<and> e \<le> i \<longrightarrow> \<not> e dvd Size"
    proof (intro allI impI)
      fix e assume "d < e \<and> e \<le> i"
      then have "e = i \<or> (d < e \<and> e \<le> i - 1)" by auto
      with nd d(4) show "\<not> e dvd Size" by blast
    qed
    from d(2) have "d \<le> i" by simp
    with d(1,3) above run show ?thesis by blast
  qed
qed

text \<open>
  C1. For a problem size above 512 the local size is the two-dimensional range
  \<open>(d, Size / d)\<close> with \<open>d\<close> the largest divisor of \<open>Size\<close> between 1 and 512; such a
  divisor exists, so the loop always assigns the local size.
\<close>

theorem GetGridSize_largest_divisor:
  assumes "512 < Size"
  shows "\<exists>d. largest_divisor Size d \<and>
             fst (GetGridSize LocalSize GlobalSize Size)
               = NDRange2 (word_of_int d) (word_of_int (Size div d))"
proof -
  from assms have "0 < Size" "(1::int) \<le> 512" by simp_all
  from GetGridSize_loop_finds [OF this, of LocalSize] obtain d where
    d: "1 \<le> d" "d \<le> 512" "d dvd Size" "\<forall>e. d < e \<and> e \<le> 512 \<longrightarrow> \<not> e dvd Size"
       "GetGridSize_loop Size 512 LocalSize = NDRange2 (word_of_int d) (word_of_int (Size div d))"
    by blast
  have "largest_divisor Size d"
    unfolding largest_divisor_def using d(1-4) by (auto simp: not_less [symmetric])
  moreover have "fst (GetGridSize LocalSize GlobalSize Size)
      = NDRange2 (word_of_int d) (word_of_int (Size div d))"
    using assms d(5) by (simp add: GetGridSize_def MaxThreads_def)
  ultimately show ?thesis by blast
qed

theorem GetGridSize_largest_divisor_witness:
  "(512::int) < 1536 \<and>
   (\<exists>d. largest_divisor 1536 d \<and>
        fst (GetGridSize NullRange NullRange 1536)
          = NDRange2 (word_of_int d) (word_of_int (1536 div d)))"
  using GetGridSize_largest_divisor [of 1536 NullRange NullRange] by simp

text \<open>
  C5. For a problem size of at most 512 the local size is the one-dimensional range
  \<open>min(512, Size)\<close>; for every problem size the global size is the one-dimensional
  range \<open>Size\<close>.
\<close>

theorem GetGridSize_one_dimensional:
  "(Size \<le> 512 \<longrightarrow>
      fst (GetGridSize LocalSize GlobalSize Size) = NDRange1 (word_of_int (min 512 Size))) \<and>
   snd (GetGridSize LocalSize GlobalSize Size) = NDRange1 (word_of_int Size)"
  by (simp add: GetGridSize_def MaxThreads_def)

theorem GetGridSize_one_dimensional_witness:
  "fst (GetGridSize NullRange NullRange 100) = NDRange1 100 \<and>
   snd (GetGridSize NullRange NullRange 100) = NDRange1 100"
  using GetGridSize_one_dimensional [of 100 NullRange NullRange] by simp

section \<open>Properties of the driver\<close>

lemma main_usage:
  assumes "length argv \<noteq> 2"
  shows "fst (main sys argv) = Return 0"
  using assms by (simp add: main_def PrintUsage_def)

lemma main_unreadable:
  assumes "length argv = 2" "xmlReadFile sys (argv ! 1) = None"
  shows "fst (main sys argv) = Return (- 1)"
  using assms by (simp add: main_def)

lemma main_no_context:
  assumes "length argv = 2" "xmlReadFile sys (argv ! 1) = Some doc"
    "xmlXPathNewContext sys doc = None"
  shows "fst (main sys argv) = Return (- 2)"
  using assms by (simp add: main_def)

lemma main_configured:
  assumes "length argv = 2" "xmlReadFile sys (argv ! 1) = Some doc"
    "xmlXPathNewContext sys doc = Some ctx"
  shows "fst (main sys argv) =
     (case string_value (xmlXPathEval sys ''string(/kernel/@file)'' ctx) of
        None \<Rightarrow> Return (- 3)
      | Some file \<Rightarrow>
          if stat sys file \<noteq> 0 then Return (- 3)
          else (case string_value (xmlXPathEval sys ''string(/kernel/@name)'' ctx) of
                  None \<Rightarrow> Return (- 3)
                | Some name \<Rightarrow> Abort))"
proof -
  have nonempty: "str \<noteq> []" if "string_value obj = Some str" for obj str
    using that by (auto simp: string_value_def split: option.splits if_splits)
  show ?thesis
    using assms
    by (auto simp: main_def Let_def split: option.splits dest: nonempty)
qed

text \<open>
  C4. When a configuration file is given and it is malformed, the driver returns a negative
  status: -1 when the file cannot be read as XML, -2 when the XPath context cannot be
  created, -3 when the kernel file attribute is missing, when the named kernel file does
  not exist, or when the kernel name attribute is missing.
\<close>

theorem main_malformed_status:
  assumes "length argv = 2"
  shows "(xmlReadFile sys (argv ! 1) = None \<longrightarrow> fst (main sys argv) = Return (- 1)) \<and>
    (\<forall>doc. xmlReadFile sys (argv ! 1) = Some doc \<and> xmlXPathNewContext sys doc = None \<longrightarrow>
       fst (main sys argv) = Return (- 2)) \<and>
    (\<forall>doc ctx. xmlReadFile sys (argv ! 1) = Some doc \<and> xmlXPathNewContext sys doc = Some ctx \<and>
       (string_value (xmlXPathEval sys ''string(/kernel/@file)'' ctx) = None \<or>
        (\<exists>file. string_value (xmlXPathEval sys ''string(/kernel/@file)'' ctx) = Some file \<and>
                stat sys file \<noteq> 0) \<or>
        string_value (xmlXPathEval sys ''string(/kernel/@name)'' ctx) = None) \<longrightarrow>
       fst (main sys argv) = Return (- 3))"
proof (intro conjI allI impI)
  assume "xmlReadFile sys (argv ! 1) = None"
  with assms show "fst (main sys argv) = Return (- 1)" by (rule main_unreadable)
next
  fix doc
  assume "xmlReadFile sys (argv ! 1) = Some doc \<and> xmlXPathNewContext sys doc = None"
  with assms show "fst (main sys argv) = Return (- 2)" by (auto intro: main_no_context)
next
  fix doc ctx
  assume a: "xmlReadFile sys (argv ! 1) = Some doc \<and> xmlXPathNewContext sys doc = Some ctx \<and>
       (string_value (xmlXPathEval sys ''string(/kernel/@file)'' ctx) = None \<or>
        (\<exists>file. string_value (xmlXPathEval sys ''string(/kernel/@file)'' ctx) = Some file \<and>
                stat sys file \<noteq> 0) \<or>
        string_value (xmlXPathEval sys ''string(/kernel/@name)'' ctx) = None)"
  then have "xmlReadFile sys (argv ! 1) = Some doc" "xmlXPathNewContext sys doc = Some ctx"
    by simp_all
  from main_configured [OF assms this] a show "fst (main sys argv) = Return (- 3)"
    by (auto split: option.splits)
qed

theorem main_malformed_status_witness:
  "fst (main unreadable_config [''driver'', ''config.xml'']) = Return (- 1) \<and>
   fst (main nameless_config [''driver'', ''config.xml'']) = Return (- 3)"
proof -
  have len: "length [''driver'', ''config.xml''] = 2" by simp
  have "xmlReadFile unreadable_config ([''driver'', ''config.xml''] ! 1) = None"
    by (simp add: unreadable_config_def)
  with main_malformed_status [OF len, of unreadable_config]
  have 1: "fst (main unreadable_config [''driver'', ''config.xml'']) = Return (- 1)"
    by blast
  have "xmlReadFile nameless_config ([''driver'', ''config.xml''] ! 1) = Some 1"
    "xmlXPathNewContext nameless_config 1 = Some 1"
    "string_value (xmlXPathEval nameless_config ''string(/kernel/@name)'' 1) = None"
    by (simp_all add: nameless_config_def string_value_def string_object_def)
  with main_malformed_status [OF len, of nameless_config]
  have 2: "fst (main nameless_config [''driver'', ''config.xml'']) = Return (- 3)"
    by blast
  from 1 2 show ?thesis by simp
qed

text \<open>
  C3, amended. The driver ends in the failed assertion exactly when it is given one
  argument and the configuration is read with success: the file is read as XML, the XPath
  context is created, the kernel file attribute is not empty and names an existing file,
  and the kernel name attribute is not empty. Every other run returns 0, -1, -2 or -3.
\<close>

theorem main_end_states:
  "fst (main sys argv) \<in> {Abort, Return 0, Return (- 1), Return (- 2), Return (- 3)} \<and>
   (fst (main sys argv) = Abort \<longleftrightarrow>
      length argv = 2 \<and>
      (\<exists>doc ctx file name.
         xmlReadFile sys (argv ! 1) = Some doc \<and>
         xmlXPathNewContext sys doc = Some ctx \<and>
         string_value (xmlXPathEval sys ''string(/kernel/@file)'' ctx) = Some file \<and>
         stat sys file = 0 \<and>
         string_value (xmlXPathEval sys ''string(/kernel/@name)'' ctx) = Some name))"
proof (cases "length argv = 2")
  case False
  then show ?thesis by (simp add: main_usage)
next
  case len: True
  show ?thesis
  proof (cases "xmlReadFile sys (argv ! 1)")
    case None
    with len show ?thesis by (simp add: main_unreadable)
  next
    case (Some doc)
    note doc = this
    show ?thesis
    proof (cases "xmlXPathNewContext sys doc")
      case None
      with len doc show ?thesis by (simp add: main_no_context)
    next
      case (Some ctx)
      from main_configured [OF len doc Some] doc Some len show ?thesis
        by (auto split: option.splits if_splits)
    qed
  qed
qed

theorem main_end_states_witness:
  "fst (main gpu_config [''driver'', ''config.xml'']) = Abort"
proof -
  have "xmlReadFile gpu_config ([''driver'', ''config.xml''] ! 1) = Some 1"
    "xmlXPathNewContext gpu_config 1 = Some 1"
    "string_value (xmlXPathEval gpu_config ''string(/kernel/@file)'' 1) = Some ''kernel.cl''"
    "stat gpu_config ''kernel.cl'' = 0"
    "string_value (xmlXPathEval gpu_config ''string(/kernel/@name)'' 1) = Some ''add''"
    by (simp_all add: gpu_config_def string_value_def string_object_def)
  with main_end_states [of gpu_config "[''driver'', ''config.xml'']"] show ?thesis
    by simp
qed

text \<open>
  C3 as stated fails: with a configuration file that cannot be read the driver does not
  reach the assertion, it returns -1.
\<close>

theorem main_not_only_abort_counterexample:
  "fst (main unreadable_config [''driver'', ''config.xml'']) = Return (- 1) \<and>
   fst (main unreadable_config [''driver'', ''config.xml'']) \<noteq> Abort"
  by (simp add: main_def unreadable_config_def)

text \<open>
  C8. In a run that reaches the end of the configuration, the target is the CPU type for
  the attribute value \<^verbatim>\<open>cpu\<close>, the GPU type for \<^verbatim>\<open>gpu\<close>, the accelerator type for
  \<^verbatim>\<open>accelerator\<close>, and the all-devices default for any other value and for an absent or
  empty attribute; that target is the one the wrapper object is given.
\<close>

theorem main_target:
  assumes "length argv = 2" "xmlReadFile sys (argv ! 1) = Some doc"
    "xmlXPathNewContext sys doc = Some ctx" "fst (main sys argv) = Abort"
  shows "Target (fst (snd (main sys argv))) =
     (let Type = string_value (xmlXPathEval sys ''string(/kernel/target/@type)'' ctx)
      in if Type = Some ''cpu'' then CL_DEVICE_TYPE_CPU
         else if Type = Some ''gpu'' then CL_DEVICE_TYPE_GPU
         else if Type = Some ''accelerator'' then CL_DEVICE_TYPE_ACCELERATOR
         else CL_DEVICE_TYPE_ALL) \<and>
     mTargetDevice (snd (snd (main sys argv))) = Target (fst (snd (main sys argv)))"
  using assms
  by (auto simp: main_def Let_def SetParameter_def OpenCL_ctor_def cl_device_type_defs
      split: option.splits if_splits)

theorem main_target_witness:
  "Target (fst (snd (main gpu_config [''driver'', ''config.xml'']))) = CL_DEVICE_TYPE_GPU \<and>
   mTargetDevice (snd (snd (main gpu_config [''driver'', ''config.xml'']))) = CL_DEVICE_TYPE_GPU"
proof -
  have h: "length [''driver'', ''config.xml''] = 2"
    "xmlReadFile gpu_config ([''driver'', ''config.xml''] ! 1) = Some 1"
    "xmlXPathNewContext gpu_config 1 = Some 1"
    by (simp_all add: gpu_config_def)
  have a: "fst (main gpu_config [''driver'', ''config.xml'']) = Abort"
    by (simp add: main_def gpu_config_def string_value_def string_object_def)
  have t: "string_value (xmlXPathEval gpu_config ''string(/kernel/target/@type)'' 1) = Some ''gpu''"
    by (simp add: gpu_config_def string_value_def string_object_def)
  from main_target [OF h a] t show ?thesis by simp
qed

section \<open>Properties of the wrapper object\<close>

lemma target_mask: 
  "CL_DEVICE_TYPE_DEFAULT OR CL_DEVICE_TYPE_CPU OR CL_DEVICE_TYPE_GPU OR
   CL_DEVICE_TYPE_ACCELERATOR = 15"
  by (simp add: cl_device_type_defs)

text \<open>
  C9. \<^verbatim>\<open>SetParameter\<close> with \<^verbatim>\<open>TargetDevice\<close> returns \<^verbatim>\<open>CL_SUCCESS\<close> exactly when the device
  list is null and the value is \<^verbatim>\<open>CL_DEVICE_TYPE_ALL\<close> or at most the bitwise or of the
  default, CPU, GPU and accelerator bits; then the value is stored as the target. In every
  other case it returns \<^verbatim>\<open>CL_INVALID_OPERATION\<close> and the object is unchanged.
\<close>

theorem SetParameter_TargetDevice:
  "(fst (SetParameter TargetDevice Value s) = CL_SUCCESS \<longleftrightarrow>
      mDevices s = None \<and>
      (Value = CL_DEVICE_TYPE_ALL \<or>
       Value \<le> (CL_DEVICE_TYPE_DEFAULT OR CL_DEVICE_TYPE_CPU OR
                 CL_DEVICE_TYPE_GPU OR CL_DEVICE_TYPE_ACCELERATOR))) \<and>
   (fst (SetParameter TargetDevice Value s) = CL_SUCCESS \<longrightarrow>
      snd (SetParameter TargetDevice Value s) = s\<lparr>mTargetDevice := Value\<rparr>) \<and>
   (fst (SetParameter TargetDevice Value s) \<noteq> CL_SUCCESS \<longrightarrow>
      fst (SetParameter TargetDevice Value s) = CL_INVALID_OPERATION \<and>
      snd (SetParameter TargetDevice Value s) = s)"
  by (simp add: SetParameter_def cl_status_defs)

theorem SetParameter_TargetDevice_witness:
  "snd (SetParameter TargetDevice CL_DEVICE_TYPE_GPU OpenCL_ctor)
     = OpenCL_ctor\<lparr>mTargetDevice := CL_DEVICE_TYPE_GPU\<rparr> \<and>
   fst (SetParameter TargetDevice 16 OpenCL_ctor) = CL_INVALID_OPERATION \<and>
   snd (SetParameter TargetDevice 16 OpenCL_ctor) = OpenCL_ctor"
proof -
  have "mDevices OpenCL_ctor = None" by (simp add: OpenCL_ctor_def)
  moreover have "CL_DEVICE_TYPE_GPU \<le> (CL_DEVICE_TYPE_DEFAULT OR CL_DEVICE_TYPE_CPU OR
                 CL_DEVICE_TYPE_GPU OR CL_DEVICE_TYPE_ACCELERATOR)"
    by (simp add: cl_device_type_defs)
  moreover have "\<not> (16 :: 64 word) \<le> (CL_DEVICE_TYPE_DEFAULT OR CL_DEVICE_TYPE_CPU OR
                 CL_DEVICE_TYPE_GPU OR CL_DEVICE_TYPE_ACCELERATOR)"
    "(16 :: 64 word) \<noteq> CL_DEVICE_TYPE_ALL"
    by (simp_all add: cl_device_type_defs)
  ultimately show ?thesis
    using SetParameter_TargetDevice [of CL_DEVICE_TYPE_GPU OpenCL_ctor]
      SetParameter_TargetDevice [of 16 OpenCL_ctor]
    by simp
qed

subsection \<open>What each initialisation changes\<close>

lemma InitializeDevices_result:
  assumes "InitializeDevices rt s = (r, s')"
  shows "(\<exists>Error. r = Return Error) \<and> (r = Return CL_SUCCESS \<longleftrightarrow> mDevices s' \<noteq> None)"
  using assms
  by (auto simp: InitializeDevices_def cl_status_defs split: if_splits sum.splits prod.splits)

lemma InitializeDevices_frame:
  assumes "InitializeDevices rt s = (r, s')"
  shows "mEvent s' = mEvent s \<and> mContext s' = mContext s \<and> mQueue s' = mQueue s \<and>
         mTargetDevice s' = mTargetDevice s \<and> mBuildOptions s' = mBuildOptions s"
  using assms
  by (auto simp: InitializeDevices_def split: if_splits sum.splits prod.splits)

lemma INIT_cases:
  assumes "INIT is_null Initialize s = (x, s')"
  shows "(\<not> is_null \<and> x = None \<and> s' = s) \<or>
         (is_null \<and> (\<exists>r. Initialize s = (r, s') \<and>
            (if r = Return CL_SUCCESS then x = None else x = Some r)))"
  using assms
  by (auto simp: INIT_def split: if_splits prod.splits result.splits)


lemma InitializeContext_result:
  assumes "InitializeContext rt s = (r, s')" "mContext s = None"
  shows "(r = Return CL_SUCCESS \<longrightarrow> mContext s' \<noteq> None \<and> mDevices s' \<noteq> None) \<and>
         (mContext s' \<noteq> None \<longrightarrow>
            r = Return CL_SUCCESS \<and> new_Context rt \<and> fst (clCreateContext rt) = CL_SUCCESS)"
proof (cases "INIT (mDevices s = None) (InitializeDevices rt) s")
  case (Pair x s1)
  from INIT_cases [OF Pair] have s1: "mContext s1 = None"
    using assms(2) by (auto dest: InitializeDevices_frame)
  show ?thesis
  proof (cases x)
    case (Some r')
    with Pair assms(1) have "s' = s1" "r = r'" by (simp_all add: InitializeContext_def)
    moreover from INIT_cases [OF Pair] Some have "r' \<noteq> Return CL_SUCCESS"
      by (auto split: if_splits)
    ultimately show ?thesis using s1 by simp
  next
    case None
    with Pair assms(1) s1 show ?thesis
      by (auto simp: InitializeContext_def cl_status_defs split: option.splits if_splits prod.splits)
  qed
qed

lemma InitializeContext_frame:
  assumes "InitializeContext rt s = (r, s')"
  shows "mEvent s' = mEvent s \<and> mQueue s' = mQueue s \<and>
         mTargetDevice s' = mTargetDevice s \<and> mBuildOptions s' = mBuildOptions s \<and>
         (mDevices s \<noteq> None \<longrightarrow> mDevices s' = mDevices s \<and> mDevice s' = mDevice s)"
proof (cases "INIT (mDevices s = None) (InitializeDevices rt) s")
  case (Pair x s1)
  from INIT_cases [OF Pair]
  have s1: "mEvent s1 = mEvent s \<and> mQueue s1 = mQueue s \<and>
         mTargetDevice s1 = mTargetDevice s \<and> mBuildOptions s1 = mBuildOptions s \<and>
         (mDevices s \<noteq> None \<longrightarrow> s1 = s)"
    by (auto dest: InitializeDevices_frame)
  from Pair assms have "s' = s1 \<or> (\<exists>c. s' = s1\<lparr>mContext := c\<rparr>)"
    by (auto simp: InitializeContext_def split: option.splits if_splits prod.splits)
  with s1 show ?thesis by auto
qed

lemma InitializeQueue_result:
  assumes "InitializeQueue rt s = (r, s')" "mQueue s = None"
  shows "(r = Return CL_SUCCESS \<longrightarrow> mQueue s' \<noteq> None) \<and>
         (mQueue s' \<noteq> None \<longrightarrow>
            r = Return CL_SUCCESS \<and> new_CommandQueue rt \<and>
            fst (clCreateCommandQueue rt) = CL_SUCCESS)"
proof (cases "INIT (mContext s = None) (InitializeContext rt) s")
  case (Pair x s1)
  from INIT_cases [OF Pair] have s1: "mQueue s1 = None"
    using assms(2) by (auto dest: InitializeContext_frame)
  show ?thesis
  proof (cases x)
    case (Some r')
    with Pair assms(1) have "s' = s1" "r = r'" by (simp_all add: InitializeQueue_def)
    moreover from INIT_cases [OF Pair] Some have "r' \<noteq> Return CL_SUCCESS"
      by (auto split: if_splits)
    ultimately show ?thesis using s1 by simp
  next
    case None
    with Pair assms(1) s1 show ?thesis
      by (auto simp: InitializeQueue_def cl_status_defs split: option.splits if_splits prod.splits)
  qed
qed

lemma InitializeQueue_frame:
  assumes "InitializeQueue rt s = (r, s')"
  shows "mEvent s' = mEvent s \<and>
         mTargetDevice s' = mTargetDevice s \<and> mBuildOptions s' = mBuildOptions s \<and>
         (mDevices s \<noteq> None \<longrightarrow> mDevices s' = mDevices s \<and> mDevice s' = mDevice s) \<and>
         (mContext s \<noteq> None \<longrightarrow> mContext s' = mContext s)"
proof (cases "INIT (mContext s = None) (InitializeContext rt) s")
  case (Pair x s1)
  from INIT_cases [OF Pair]
  have s1: "mEvent s1 = mEvent s \<and>
         mTargetDevice s1 = mTargetDevice s \<and> mBuildOptions s1 = mBuildOptions s \<and>
         (mDevices s \<noteq> None \<longrightarrow> mDevices s1 = mDevices s \<and> mDevice s1 = mDevice s) \<and>
         (mContext s \<noteq> None \<longrightarrow> s1 = s)"
    by (auto dest: InitializeContext_frame)
  from Pair assms have "s' = s1 \<or> (\<exists>q. s' = s1\<lparr>mQueue := q\<rparr>)"
    by (auto simp: InitializeQueue_def split: option.splits if_splits prod.splits)
  with s1 show ?thesis by auto
qed

text \<open>
  C10. The three initialisation functions are called through \<^verbatim>\<open>INIT\<close> only, when the
  member they create is null. When one of them returns a status other than
  \<^verbatim>\<open>CL_SUCCESS\<close>, that member is null afterwards; a member that is not null afterwards
  was created by a call that returned \<^verbatim>\<open>CL_SUCCESS\<close>.
\<close>

theorem Initialize_failure_leaves_null:
  "(fst (InitializeDevices rt s) = Return Error \<and> Error \<noteq> CL_SUCCESS \<longrightarrow>
      mDevices (snd (InitializeDevices rt s)) = None) \<and>
   (mContext s = None \<and> fst (InitializeContext rt s) = Return Error \<and> Error \<noteq> CL_SUCCESS \<longrightarrow>
      mContext (snd (InitializeContext rt s)) = None) \<and>
   (mQueue s = None \<and> fst (InitializeQueue rt s) = Return Error \<and> Error \<noteq> CL_SUCCESS \<longrightarrow>
      mQueue (snd (InitializeQueue rt s)) = None) \<and>
   (mDevices (snd (InitializeDevices rt s)) \<noteq> None \<longrightarrow>
      fst (InitializeDevices rt s) = Return CL_SUCCESS) \<and>
   (mContext s = None \<and> mContext (snd (InitializeContext rt s)) \<noteq> None \<longrightarrow>
      fst (InitializeContext rt s) = Return CL_SUCCESS) \<and>
   (mQueue s = None \<and> mQueue (snd (InitializeQueue rt s)) \<noteq> None \<longrightarrow>
      fst (InitializeQueue rt s) = Return CL_SUCCESS)"
proof -
  have D: "InitializeDevices rt s = (fst (InitializeDevices rt s), snd (InitializeDevices rt s))"
    and C: "InitializeContext rt s = (fst (InitializeContext rt s), snd (InitializeContext rt s))"
    and Q: "InitializeQueue rt s = (fst (InitializeQueue rt s), snd (InitializeQueue rt s))"
    by simp_all
  from InitializeDevices_result [OF D] InitializeContext_result [OF C]
    InitializeQueue_result [OF Q]
  show ?thesis by auto
qed


subsection \<open>What a call changes\<close>

lemma members_kept_refl: "members_kept s s"
  by (simp add: members_kept_def)

lemma members_kept_trans:
  assumes "members_kept s s1" "members_kept s1 s2"
  shows "members_kept s s2"
  using assms by (auto simp: members_kept_def)

lemma members_kept_mEvent: "members_kept s (s\<lparr>mEvent := event\<rparr>)"
  by (simp add: members_kept_def)

lemma INIT_Devices_kept:
  assumes "INIT (mDevices s = None) (InitializeDevices rt) s = (x, s1)"
  shows "members_kept s s1 \<and> mEvent s1 = mEvent s"
  using INIT_cases [OF assms]
  by (auto simp: members_kept_def dest: InitializeDevices_frame)

lemma INIT_Context_kept:
  assumes "INIT (mContext s = None) (InitializeContext rt) s = (x, s1)"
  shows "members_kept s s1 \<and> mEvent s1 = mEvent s"
  using INIT_cases [OF assms]
  by (auto simp: members_kept_def dest: InitializeContext_frame)

lemma INIT_Queue_kept:
  assumes "INIT (mQueue s = None) (InitializeQueue rt) s = (x, s1)"
  shows "members_kept s s1 \<and> mEvent s1 = mEvent s"
  using INIT_cases [OF assms]
  by (auto simp: members_kept_def dest: InitializeQueue_frame)

lemma INIT_early:
  assumes "INIT is_null Initialize s = (Some r, s1)"
  shows "r \<noteq> Return CL_SUCCESS"
  using INIT_cases [OF assms] by (auto split: if_splits)

lemma enqueue_event:
  assumes "enqueue rt event = (Error, event')"
  shows "Error = fst (clEnqueue rt) \<and>
         event' = (if Error = CL_SUCCESS then Event (snd (clEnqueue rt)) else event)"
  using assms by (auto simp: enqueue_def split: prod.splits)

text \<open>
  The three functions that end in an enqueue call have the same shape: the queue is
  initialised if it is null, then the event is whatever the enqueue call leaves.
\<close>

lemma enqueue_after_INIT:
  assumes init: "INIT (mQueue s = None) (InitializeQueue rt) s = (x, s1)"
    and body: "(r, s') =
      (case x of
         Some r0 \<Rightarrow> (r0, s1)
       | None \<Rightarrow>
          if mDevices s1 = None then (Abort, s1)
          else if mContext s1 = None then (Abort, s1)
          else if mQueue s1 = None then (Abort, s1)
          else
            (case enqueue rt (mEvent s1) of (Error, event) \<Rightarrow>
               (Return Error, s1\<lparr>mEvent := event\<rparr>)))"
  shows "members_kept s s' \<and>
         mEvent s' = (if r = Return CL_SUCCESS then Event (snd (clEnqueue rt)) else mEvent s)"
proof -
  from INIT_Queue_kept [OF init] have k: "members_kept s s1" and e: "mEvent s1 = mEvent s"
    by simp_all
  show ?thesis
  proof (cases x)
    case (Some r0)
    with body INIT_early [of "mQueue s = None" "InitializeQueue rt" s r0 s1] init k e
    show ?thesis by simp
  next
    case None
    obtain Error event where en: "enqueue rt (mEvent s1) = (Error, event)"
      by (cases "enqueue rt (mEvent s1)")
    from enqueue_event [OF en] have ev:
      "event = (if Error = CL_SUCCESS then Event (snd (clEnqueue rt)) else mEvent s1)" by simp
    from body None en have
      "(r, s') = (Abort, s1) \<or> (r, s') = (Return Error, s1\<lparr>mEvent := event\<rparr>)"
      by (auto split: if_splits)
    then show ?thesis
    proof
      assume "(r, s') = (Abort, s1)"
      with k e show ?thesis by simp
    next
      assume "(r, s') = (Return Error, s1\<lparr>mEvent := event\<rparr>)"
      with k e ev members_kept_trans [OF k members_kept_mEvent [of s1 event]]
      show ?thesis by simp
    qed
  qed
qed

lemma ReadBuffer_effect:
  assumes "ReadBuffer rt Size s = (r, s')"
  shows "members_kept s s' \<and>
         mEvent s' = (if r = Return CL_SUCCESS then Event (snd (clEnqueue rt)) else mEvent s)"
proof -
  obtain x s1 where init: "INIT (mQueue s = None) (InitializeQueue rt) s = (x, s1)"
    by (cases "INIT (mQueue s = None) (InitializeQueue rt) s")
  show ?thesis
    by (rule enqueue_after_INIT [OF init])
       (use assms init in \<open>simp add: ReadBuffer_def split: option.splits\<close>)
qed

lemma WriteBuffer_effect:
  assumes "WriteBuffer rt Size s = (r, s')"
  shows "members_kept s s' \<and>
         mEvent s' = (if r = Return CL_SUCCESS then Event (snd (clEnqueue rt)) else mEvent s)"
proof -
  obtain x s1 where init: "INIT (mQueue s = None) (InitializeQueue rt) s = (x, s1)"
    by (cases "INIT (mQueue s = None) (InitializeQueue rt) s")
  show ?thesis
    by (rule enqueue_after_INIT [OF init])
       (use assms init in \<open>simp add: WriteBuffer_def split: option.splits\<close>)
qed

lemma ExecuteKernelFromKernelEx_effect:
  assumes "ExecuteKernelFromKernelEx rt DataSize Position KernelArgs s = (r, s')"
  shows "members_kept s s' \<and>
         mEvent s' = (if r = Return CL_SUCCESS then Event (snd (clEnqueue rt)) else mEvent s)"
  using assms
proof (induction KernelArgs arbitrary: Position)
  case Nil
  obtain x s1 where init: "INIT (mQueue s = None) (InitializeQueue rt) s = (x, s1)"
    by (cases "INIT (mQueue s = None) (InitializeQueue rt) s")
  show ?case
    by (rule enqueue_after_INIT [OF init])
       (use Nil init in \<open>auto split: option.splits prod.splits if_splits\<close>)
next
  case (Cons KernelArg KernelArgs)
  then show ?case by simp
qed


lemma AllocateBuffer_effect:
  assumes "AllocateBuffer rt Size s = (r, s')"
  shows "members_kept s s' \<and> mEvent s' = mEvent s"
proof -
  obtain x s1 where init: "INIT (mContext s = None) (InitializeContext rt) s = (x, s1)"
    by (cases "INIT (mContext s = None) (InitializeContext rt) s")
  from assms init have "s' = s1"
    by (auto simp: AllocateBuffer_def split: option.splits if_splits)
  with INIT_Context_kept [OF init] show ?thesis by simp
qed

lemma GetUsedDevice_effect:
  assumes "fst (GetUsedDevice rt s) = (r, s')"
  shows "members_kept s s' \<and> mEvent s' = mEvent s"
proof -
  obtain x s1 where init: "INIT (mDevices s = None) (InitializeDevices rt) s = (x, s1)"
    by (cases "INIT (mDevices s = None) (InitializeDevices rt) s")
  from assms init have "s' = s1"
    by (auto simp: GetUsedDevice_def split: option.splits if_splits)
  with INIT_Devices_kept [OF init] show ?thesis by simp
qed

lemma GetProgramFromSource_effect:
  assumes "GetProgramFromSource rt Source s = (r, s')"
  shows "members_kept s s' \<and> mEvent s' = mEvent s"
proof -
  obtain x s1 where init: "INIT (mContext s = None) (InitializeContext rt) s = (x, s1)"
    by (cases "INIT (mContext s = None) (InitializeContext rt) s")
  from assms init have "s' = s1"
    by (auto simp: GetProgramFromSource_def split: option.splits if_splits)
  with INIT_Context_kept [OF init] show ?thesis by simp
qed

lemma GetKernelFromSource_effect:
  assumes "GetKernelFromSource rt Source KernelName s = (r, s')"
  shows "members_kept s s' \<and> mEvent s' = mEvent s"
proof -
  obtain r1 s1 where p: "GetProgramFromSource rt Source s = (r1, s1)"
    by (cases "GetProgramFromSource rt Source s")
  from assms p have "s' = s1"
    by (auto simp: GetKernelFromSource_def GetKernelFromProgram_def
        split: result.splits if_splits)
  with GetProgramFromSource_effect [OF p] show ?thesis by simp
qed

lemma ExecuteKernelFromSource_effect:
  assumes "ExecuteKernelFromSource rt Source KernelName DataSize KernelArgs s = (r, s')"
  shows "members_kept s s' \<and>
         mEvent s' = (if r = Return CL_SUCCESS then Event (snd (clEnqueue rt)) else mEvent s)"
proof -
  obtain r1 s1 where k: "GetKernelFromSource rt Source KernelName s = (r1, s1)"
    by (cases "GetKernelFromSource rt Source KernelName s")
  from GetKernelFromSource_effect [OF k]
  have s1: "members_kept s s1" "mEvent s1 = mEvent s" by simp_all
  show ?thesis
  proof (cases "r1 = Return CL_SUCCESS")
    case True
    with assms k have "ExecuteKernelFromKernelEx rt DataSize 0 KernelArgs s1 = (r, s')"
      by (simp add: ExecuteKernelFromSource_def)
    from ExecuteKernelFromKernelEx_effect [OF this] s1 show ?thesis
      by (auto intro: members_kept_trans)
  next
    case False
    with assms k have "r = r1" "s' = s1"
      by (auto simp: ExecuteKernelFromSource_def split: result.splits if_splits)
    with False s1 show ?thesis by simp
  qed
qed

lemma ExecuteKernelFromProgram_effect:
  assumes "ExecuteKernelFromProgram rt KernelName DataSize KernelArgs s = (r, s')"
  shows "members_kept s s' \<and>
         mEvent s' = (if r = Return CL_SUCCESS then Event (snd (clEnqueue rt)) else mEvent s)"
proof (cases "clCreateKernel rt = CL_SUCCESS")
  case True
  with assms have "ExecuteKernelFromKernelEx rt DataSize 0 KernelArgs s = (r, s')"
    by (simp add: ExecuteKernelFromProgram_def GetKernelFromProgram_def)
  then show ?thesis by (rule ExecuteKernelFromKernelEx_effect)
next
  case False
  with assms have "r = Return (clCreateKernel rt)" "s' = s"
    by (auto simp: ExecuteKernelFromProgram_def GetKernelFromProgram_def)
  with False show ?thesis by (simp add: members_kept_refl)
qed

lemma call_effect:
  assumes "call rt op s = (r, s')"
  shows "members_kept s s' \<and>
         mEvent s' = (if enqueuing op \<and> r = Return CL_SUCCESS
                      then Event (snd (clEnqueue rt)) else mEvent s)"
proof (cases op)
  case (Op_AllocateBuffer Size)
  with assms show ?thesis by (simp add: AllocateBuffer_effect)
next
  case Op_GetUsedDevice
  with assms show ?thesis by (simp add: GetUsedDevice_effect)
next
  case (Op_GetProgramFromSource Source)
  with assms show ?thesis by (simp add: GetProgramFromSource_effect)
next
  case (Op_GetKernelFromSource Source KernelName)
  with assms show ?thesis by (simp add: GetKernelFromSource_effect)
next
  case (Op_GetKernelFromProgram KernelName)
  with assms show ?thesis by (auto simp: GetKernelFromProgram_def members_kept_refl)
next
  case Op_GetLastElapsedTime
  with assms show ?thesis by (auto simp: members_kept_refl)
next
  case (Op_ExecuteKernelFromSource Source KernelName DataSize KernelArgs)
  with assms ExecuteKernelFromSource_effect [of rt Source KernelName DataSize KernelArgs s r s']
  show ?thesis by simp
next
  case (Op_ExecuteKernelFromProgram KernelName DataSize KernelArgs)
  with assms ExecuteKernelFromProgram_effect [of rt KernelName DataSize KernelArgs s r s']
  show ?thesis by simp
next
  case (Op_ExecuteKernelFromKernel DataSize KernelArgs)
  with assms ExecuteKernelFromKernelEx_effect [of rt DataSize 0 KernelArgs s r s']
  show ?thesis by (simp add: ExecuteKernelFromKernel_def)
next
  case (Op_ReadBuffer Size)
  with assms ReadBuffer_effect [of rt Size s r s'] show ?thesis by simp
next
  case (Op_SetParameter Parameter Value)
  with assms show ?thesis
    by (auto simp: SetParameter_def members_kept_def split: OpenCLParameters.splits if_splits)
next
  case (Op_SetParameter_string Parameter Value)
  with assms show ?thesis
    by (auto simp: SetParameter_string_def members_kept_def split: OpenCLParameters.splits)
next
  case Op_WaitForLastEvent
  with assms show ?thesis by (auto simp: members_kept_refl)
next
  case (Op_WriteBuffer Size)
  with assms WriteBuffer_effect [of rt Size s r s'] show ?thesis by simp
qed

lemma calls_kept: "members_kept s (calls tr s)"
proof (induction tr arbitrary: s)
  case Nil
  show ?case by (simp add: members_kept_refl)
next
  case (Cons step tr)
  obtain rt op where step: "step = (rt, op)" by (cases step)
  obtain r s1 where c: "call rt op s = (r, s1)" by (cases "call rt op s")
  from call_effect [OF c] have k: "members_kept s s1" by simp
  show ?case
  proof (cases r)
    case (Return Error)
    with step c have "calls (step # tr) s = calls tr s1" by simp
    with k Cons.IH [of s1] show ?thesis by (auto intro: members_kept_trans)
  next
    case Abort
    with step c k show ?thesis by simp
  next
    case Throw
    with step c k show ?thesis by simp
  qed
qed

text \<open>
  C7, amended. There is one stored event. A call that enqueues a command (kernel execution,
  buffer read, buffer write) and returns \<^verbatim>\<open>CL_SUCCESS\<close> replaces it by the event of that
  command, whatever it was before; a call that returns an error, and any other call,
  leaves it as it was. \<^verbatim>\<open>WaitForLastEvent\<close> waits for the stored event and
  \<^verbatim>\<open>GetLastElapsedTime\<close> reads both times from it.
\<close>

theorem last_event_tracking:
  assumes "call rt op s = (r, s')"
  shows "(enqueuing op \<and> r = Return CL_SUCCESS \<longrightarrow> mEvent s' = Event (snd (clEnqueue rt))) \<and>
         (\<not> (enqueuing op \<and> r = Return CL_SUCCESS) \<longrightarrow> mEvent s' = mEvent s) \<and>
         WaitForLastEvent rt' s' = clWaitForEvents rt' (mEvent s') \<and>
         (fst (GetLastElapsedTime rt' s') = CL_SUCCESS \<longrightarrow>
            snd (GetLastElapsedTime rt' s') =
              Some (snd (clGetEventProfilingInfo rt' (mEvent s') CL_PROFILING_COMMAND_START),
                    snd (clGetEventProfilingInfo rt' (mEvent s') CL_PROFILING_COMMAND_END)))"
  using call_effect [OF assms]
  by (auto simp: WaitForLastEvent_def GetLastElapsedTime_def split: prod.splits if_splits)


subsection \<open>Runs on the concrete machines\<close>

lemmas device_defs = accelerator_off_def gpu_no_compiler_def gpu_ok_def cpu_ok_def

lemma workstation_InitializeDevices:
  assumes "new_vector rt" "Platform_get rt = Platform_get workstation"
  shows "InitializeDevices rt OpenCL_ctor = (Return CL_SUCCESS, with_devices)"
  using assms
  by (simp add: InitializeDevices_def workstation_def OpenCL_ctor_def with_devices_def permits_def
      BROWSE_DEVICES.simps BROWSE_DEVICES_j.simps getDevices_def device_defs
      cl_device_type_defs)

lemma no_platform_InitializeDevices:
  "InitializeDevices no_platform OpenCL_ctor = (Return CL_DEVICE_NOT_FOUND, OpenCL_ctor)"
  by (simp add: InitializeDevices_def no_platform_def workstation_def OpenCL_ctor_def
      BROWSE_DEVICES.simps)

lemma workstation_InitializeContext:
  assumes "new_vector rt" "Platform_get rt = Platform_get workstation" "new_Context rt"
  shows "InitializeContext rt OpenCL_ctor =
     (if fst (clCreateContext rt) = CL_SUCCESS
      then (Return CL_SUCCESS,
            with_devices\<lparr>mContext := Some (Context [gpu_no_compiler, gpu_ok] (snd (clCreateContext rt)))\<rparr>)
      else (Return (fst (clCreateContext rt)), with_devices))"
proof -
  have init: "INIT (mDevices OpenCL_ctor = None) (InitializeDevices rt) OpenCL_ctor
      = (None, with_devices)"
    by (simp add: INIT_def workstation_InitializeDevices [OF assms(1,2)])
       (simp add: OpenCL_ctor_def)
  show ?thesis
    unfolding InitializeContext_def init using assms(3)
    by (simp add: with_devices_def OpenCL_ctor_def split: prod.splits)
qed

lemma workstation_InitializeQueue:
  assumes "new_vector rt" "Platform_get rt = Platform_get workstation" "new_Context rt"
    "clCreateContext rt = (CL_SUCCESS, 1)" "new_CommandQueue rt"
  shows "InitializeQueue rt OpenCL_ctor =
     (if fst (clCreateCommandQueue rt) = CL_SUCCESS
      then (Return CL_SUCCESS,
            with_context\<lparr>mQueue := Some (CommandQueue (Context [gpu_no_compiler, gpu_ok] 1) gpu_ok
                                           (snd (clCreateCommandQueue rt)))\<rparr>)
      else (Return (fst (clCreateCommandQueue rt)), with_context))"
proof -
  have init: "INIT (mContext OpenCL_ctor = None) (InitializeContext rt) OpenCL_ctor
      = (None, with_context)"
    by (simp add: INIT_def workstation_InitializeContext [OF assms(1,2,3)] assms(4)
          with_context_def)
       (simp add: OpenCL_ctor_def)
  show ?thesis
    unfolding InitializeQueue_def init using assms(5)
    by (simp add: with_context_def with_devices_def OpenCL_ctor_def split: prod.splits)
qed

lemma workstation_WriteBuffer:
  "WriteBuffer workstation Size OpenCL_ctor = (Return CL_SUCCESS, with_queue\<lparr>mEvent := Event 7\<rparr>)"
proof -
  have rt: "new_vector workstation" "Platform_get workstation = Platform_get workstation"
    "new_Context workstation" "clCreateContext workstation = (CL_SUCCESS, 1)"
    "new_CommandQueue workstation" "clCreateCommandQueue workstation = (CL_SUCCESS, 2)"
    "clEnqueue workstation = (CL_SUCCESS, 7)"
    by (simp_all add: workstation_def)
  have init: "INIT (mQueue OpenCL_ctor = None) (InitializeQueue workstation) OpenCL_ctor
      = (None, with_queue)"
    by (simp add: INIT_def workstation_InitializeQueue [OF rt(1-5)] rt(6) with_queue_def)
       (simp add: OpenCL_ctor_def)
  show ?thesis
    unfolding WriteBuffer_def init using rt(7)
    by (simp add: with_queue_def with_context_def with_devices_def OpenCL_ctor_def enqueue_def)
qed

lemma no_platform_ReadBuffer:
  "ReadBuffer no_platform Size OpenCL_ctor = (Return CL_DEVICE_NOT_FOUND, OpenCL_ctor)"
proof -
  have "mQueue OpenCL_ctor = None" "mContext OpenCL_ctor = None" "mDevices OpenCL_ctor = None"
    by (simp_all add: OpenCL_ctor_def)
  then show ?thesis
    by (simp add: ReadBuffer_def InitializeQueue_def InitializeContext_def INIT_def
        no_platform_InitializeDevices cl_status_defs)
qed

lemma enqueue_failure_ReadBuffer:
  "ReadBuffer enqueue_failure Size (with_queue\<lparr>mEvent := Event 7\<rparr>)
     = (Return CL_OUT_OF_HOST_MEMORY, with_queue\<lparr>mEvent := Event 7\<rparr>)"
  by (simp add: ReadBuffer_def INIT_def with_queue_def with_context_def with_devices_def
      enqueue_def enqueue_failure_def cl_status_defs)

theorem Initialize_failure_leaves_null_witness:
  "mDevices (snd (InitializeDevices no_platform OpenCL_ctor)) = None \<and>
   mContext (snd (InitializeContext context_failure OpenCL_ctor)) = None \<and>
   mQueue (snd (InitializeQueue queue_failure OpenCL_ctor)) = None"
proof -
  have null: "mContext OpenCL_ctor = None" "mQueue OpenCL_ctor = None"
    by (simp_all add: OpenCL_ctor_def)
  have D: "fst (InitializeDevices no_platform OpenCL_ctor) = Return CL_DEVICE_NOT_FOUND"
    by (simp add: no_platform_InitializeDevices)
  have C: "fst (InitializeContext context_failure OpenCL_ctor) = Return CL_OUT_OF_HOST_MEMORY"
    by (subst workstation_InitializeContext)
       (simp_all add: context_failure_def workstation_def cl_status_defs)
  have Q: "fst (InitializeQueue queue_failure OpenCL_ctor) = Return CL_OUT_OF_HOST_MEMORY"
    by (subst workstation_InitializeQueue)
       (simp_all add: queue_failure_def workstation_def cl_status_defs)
  have ne: "CL_DEVICE_NOT_FOUND \<noteq> CL_SUCCESS" "CL_OUT_OF_HOST_MEMORY \<noteq> CL_SUCCESS"
    by (simp_all add: cl_status_defs)
  from Initialize_failure_leaves_null [of no_platform OpenCL_ctor CL_DEVICE_NOT_FOUND] D ne
  have 1: "mDevices (snd (InitializeDevices no_platform OpenCL_ctor)) = None" by blast
  from Initialize_failure_leaves_null [of context_failure OpenCL_ctor CL_OUT_OF_HOST_MEMORY]
    C ne null
  have 2: "mContext (snd (InitializeContext context_failure OpenCL_ctor)) = None" by blast
  from Initialize_failure_leaves_null [of queue_failure OpenCL_ctor CL_OUT_OF_HOST_MEMORY]
    Q ne null
  have 3: "mQueue (snd (InitializeQueue queue_failure OpenCL_ctor)) = None" by blast
  from 1 2 3 show ?thesis by simp
qed

theorem last_event_tracking_witness:
  "call workstation (Op_WriteBuffer 4 :: unit operation) OpenCL_ctor
     = (Return CL_SUCCESS, with_queue\<lparr>mEvent := Event 7\<rparr>) \<and>
   mEvent (with_queue\<lparr>mEvent := Event 7\<rparr>) = Event (snd (clEnqueue workstation)) \<and>
   WaitForLastEvent workstation (with_queue\<lparr>mEvent := Event 7\<rparr>)
     = clWaitForEvents workstation (Event 7)"
proof -
  have c: "call workstation (Op_WriteBuffer 4 :: unit operation) OpenCL_ctor
     = (Return CL_SUCCESS, with_queue\<lparr>mEvent := Event 7\<rparr>)"
    by (simp add: workstation_WriteBuffer)
  have e: "enqueuing (Op_WriteBuffer 4 :: unit operation)" by simp
  from last_event_tracking [OF c, of workstation] c e show ?thesis by simp
qed

text \<open>
  C7 as stated fails for a call that returns an error. On a machine without platform a buffer
  read on a new object returns \<^verbatim>\<open>CL_DEVICE_NOT_FOUND\<close> from the lazy initialisation and the
  stored event is still the null event. After a buffer write that stored event 7, a buffer
  read whose enqueue call fails leaves event 7, the event of the earlier write.
\<close>

theorem last_event_tracking_counterexample:
  "fst (ReadBuffer no_platform 4 OpenCL_ctor) = Return CL_DEVICE_NOT_FOUND \<and>
   mEvent (snd (ReadBuffer no_platform 4 OpenCL_ctor)) = NullEvent \<and>
   fst (WriteBuffer workstation 4 OpenCL_ctor) = Return CL_SUCCESS \<and>
   mEvent (snd (WriteBuffer workstation 4 OpenCL_ctor)) = Event 7 \<and>
   fst (ReadBuffer enqueue_failure 4 (snd (WriteBuffer workstation 4 OpenCL_ctor)))
     = Return CL_OUT_OF_HOST_MEMORY \<and>
   mEvent (snd (ReadBuffer enqueue_failure 4 (snd (WriteBuffer workstation 4 OpenCL_ctor))))
     = Event 7"
proof -
  have "mEvent OpenCL_ctor = NullEvent" by (simp add: OpenCL_ctor_def)
  then show ?thesis
    by (simp add: no_platform_ReadBuffer workstation_WriteBuffer enqueue_failure_ReadBuffer)
qed

section \<open>Properties of the device search\<close>

lemma BROWSE_DEVICES_j_first:
  assumes "j \<le> length devices"
  shows "BROWSE_DEVICES_j devices j =
     (if \<exists>d \<in> set (drop j devices). suitable d
      then Some (j + length (takeWhile (\<lambda>d. \<not> suitable d) (drop j devices)))
      else None)"
  using assms
proof (induction devices j rule: BROWSE_DEVICES_j.induct)
  case (1 devices j)
  show ?case
  proof (cases "j < length devices")
    case False
    then show ?thesis by (simp add: BROWSE_DEVICES_j.simps [of devices j])
  next
    case True
    then have d: "drop j devices = devices ! j # drop (Suc j) devices"
      by (simp add: Cons_nth_drop_Suc)
    show ?thesis
    proof (cases "suitable (devices ! j)")
      case yes: True
      with True d show ?thesis
        by (simp add: BROWSE_DEVICES_j.simps [of devices j] suitable_def)
    next
      case no: False
      with True have "BROWSE_DEVICES_j devices j = BROWSE_DEVICES_j devices (Suc j)"
        by (auto simp: BROWSE_DEVICES_j.simps [of devices j] suitable_def)
      moreover from True no have "BROWSE_DEVICES_j devices (Suc j) =
        (if \<exists>d \<in> set (drop (Suc j) devices). suitable d
         then Some (Suc j + length (takeWhile (\<lambda>d. \<not> suitable d) (drop (Suc j) devices)))
         else None)"
        by (intro "1.IH") (auto simp: suitable_def)
      ultimately show ?thesis using d no by simp
    qed
  qed
qed

lemma getDevices_contents:
  "snd (getDevices P ty devices) =
     (if devices_of_class ty P = [] then devices else devices_of_class ty P)"
  by (simp add: getDevices_def devices_of_class_def Let_def)

lemma first_suitable_Cons:
  "first_suitable (devices # rest) =
     (if \<exists>d \<in> set devices. suitable d
      then Some (devices, length (takeWhile (\<lambda>d. \<not> suitable d) devices))
      else first_suitable rest)"
  by (simp add: first_suitable_def)

lemma first_suitable_append:
  "first_suitable (xs @ ys) =
     (case first_suitable xs of Some found \<Rightarrow> Some found | None \<Rightarrow> first_suitable ys)"
  by (induction xs) (simp_all add: first_suitable_Cons, simp add: first_suitable_def)

lemma BROWSE_DEVICES_first:
  assumes "i \<le> length Platforms" "\<forall>d \<in> set devices. \<not> suitable d"
  shows "case first_suitable (map (devices_of_class ty) (drop i Platforms)) of
           Some found \<Rightarrow> BROWSE_DEVICES ty Platforms i devices = Inl found
         | None \<Rightarrow> \<exists>devices'. BROWSE_DEVICES ty Platforms i devices = Inr devices' \<and>
                      (\<forall>d \<in> set devices'. \<not> suitable d)"
  using assms
proof (induction ty Platforms i devices rule: BROWSE_DEVICES.induct)
  case (1 ty Platforms i devices)
  show ?case
  proof (cases "i < length Platforms")
    case False
    then have "BROWSE_DEVICES ty Platforms i devices = Inr devices"
      by (simp add: BROWSE_DEVICES.simps [of ty Platforms i])
    with False "1.prems" show ?thesis
      by (simp add: first_suitable_def)
  next
    case True
    define devices' where "devices' = snd (getDevices (Platforms ! i) ty devices)"
    define here where "here = devices_of_class ty (Platforms ! i)"
    from True have d: "drop i Platforms = Platforms ! i # drop (Suc i) Platforms"
      by (simp add: Cons_nth_drop_Suc)
    have contents: "devices' = (if here = [] then devices else here)"
      by (simp add: devices'_def here_def getDevices_contents)
    have scan: "BROWSE_DEVICES_j devices' 0 =
      (if \<exists>d \<in> set devices'. suitable d
       then Some (length (takeWhile (\<lambda>d. \<not> suitable d) devices')) else None)"
      using BROWSE_DEVICES_j_first [of 0 devices'] by simp
    show ?thesis
    proof (cases "\<exists>d \<in> set devices'. suitable d")
      case found: True
      with contents "1.prems"(2) have h: "devices' = here" by (auto split: if_splits)
      from found scan True have
        "BROWSE_DEVICES ty Platforms i devices =
           Inl (devices', length (takeWhile (\<lambda>d. \<not> suitable d) devices'))"
        by (simp add: BROWSE_DEVICES.simps [of ty Platforms i] devices'_def Let_def)
      with found h d show ?thesis
        by (simp add: first_suitable_Cons here_def)
    next
      case none: False
      with scan have j: "BROWSE_DEVICES_j devices' 0 = None" by simp
      with True have step: "BROWSE_DEVICES ty Platforms i devices =
          BROWSE_DEVICES ty Platforms (Suc i) devices'"
        by (simp add: BROWSE_DEVICES.simps [of ty Platforms i] devices'_def Let_def)
      from none contents "1.prems"(2) have "\<not> (\<exists>d \<in> set here. suitable d)"
        by (auto split: if_splits)
      with d have fs: "first_suitable (map (devices_of_class ty) (drop i Platforms)) =
          first_suitable (map (devices_of_class ty) (drop (Suc i) Platforms))"
        by (simp add: first_suitable_Cons here_def)
      from True none have
        "case first_suitable (map (devices_of_class ty) (drop (Suc i) Platforms)) of
           Some found \<Rightarrow> BROWSE_DEVICES ty Platforms (Suc i) devices' = Inl found
         | None \<Rightarrow> \<exists>devices''. BROWSE_DEVICES ty Platforms (Suc i) devices' = Inr devices'' \<and>
                      (\<forall>d \<in> set devices''. \<not> suitable d)"
        by (intro "1.IH" [OF True devices'_def j]) auto
      then show ?thesis unfolding step fs .
    qed
  qed
qed


lemma encountered_classes:
  "encountered target Platforms =
     (if permits target CL_DEVICE_TYPE_ACCELERATOR
      then map (devices_of_class CL_DEVICE_TYPE_ACCELERATOR) Platforms else []) @
     (if permits target CL_DEVICE_TYPE_GPU
      then map (devices_of_class CL_DEVICE_TYPE_GPU) Platforms else []) @
     (if permits target CL_DEVICE_TYPE_CPU
      then map (devices_of_class CL_DEVICE_TYPE_CPU) Platforms else [])"
  by (simp add: encountered_def search_order_def)

lemma class_first:
  assumes "\<forall>d \<in> set devices. \<not> suitable d"
  shows "case first_suitable
                (if permits target ty then map (devices_of_class ty) Platforms else []) of
           Some found \<Rightarrow>
             (if permits target ty then BROWSE_DEVICES ty Platforms 0 devices else Inr devices)
               = Inl found
         | None \<Rightarrow>
             \<exists>devices'.
               (if permits target ty then BROWSE_DEVICES ty Platforms 0 devices else Inr devices)
                 = Inr devices' \<and> (\<forall>d \<in> set devices'. \<not> suitable d)"
proof (cases "permits target ty")
  case True
  with BROWSE_DEVICES_first [of 0 Platforms devices ty] assms show ?thesis by simp
next
  case False
  with assms show ?thesis by (simp add: first_suitable_def)
qed

lemma first_suitable_index:
  assumes "first_suitable candidates = Some (devices, j)"
  shows "devices \<in> set candidates \<and> j < length devices \<and> suitable (devices ! j) \<and>
         (\<forall>k < j. \<not> suitable (devices ! k))"
proof -
  from assms obtain found where f: "find (\<lambda>devices. \<exists>d \<in> set devices. suitable d) candidates = Some found"
    and eq: "devices = found" "j = length (takeWhile (\<lambda>d. \<not> suitable d) found)"
    by (auto simp: first_suitable_def split: option.splits)
  from f have ex: "\<exists>d \<in> set found. suitable d" and mem: "found \<in> set candidates"
    by (auto simp: find_Some_iff)
  have "length (takeWhile (\<lambda>d. \<not> suitable d) found) \<noteq> length found"
  proof
    assume "length (takeWhile (\<lambda>d. \<not> suitable d) found) = length found"
    then have "takeWhile (\<lambda>d. \<not> suitable d) found = found"
      by (metis takeWhile_dropWhile_id append_eq_conv_conj append_Nil2)
    with ex show False by auto
  qed
  with length_takeWhile_le [of "\<lambda>d. \<not> suitable d" found]
  have lt: "length (takeWhile (\<lambda>d. \<not> suitable d) found) < length found"
    by simp
  from nth_length_takeWhile [OF lt] have "suitable (found ! length (takeWhile (\<lambda>d. \<not> suitable d) found))"
    by simp
  moreover have "\<forall>k < length (takeWhile (\<lambda>d. \<not> suitable d) found). \<not> suitable (found ! k)"
    using nth_mem [of _ "takeWhile (\<lambda>d. \<not> suitable d) found"]
    by (auto simp: takeWhile_nth dest: set_takeWhileD)
  ultimately show ?thesis using eq lt mem by simp
qed

lemma InitializeDevices_search:
  assumes "new_vector rt"
  shows "InitializeDevices rt s =
    (case first_suitable (encountered (mTargetDevice s) (Platform_get rt)) of
       Some (devices, j) \<Rightarrow> (Return CL_SUCCESS, s\<lparr>mDevices := Some devices, mDevice := j\<rparr>)
     | None \<Rightarrow> (Return CL_DEVICE_NOT_FOUND, s\<lparr>mDevices := None\<rparr>))"
proof -
  let ?t = "mTargetDevice s" and ?P = "Platform_get rt"
  let ?A = "if permits ?t CL_DEVICE_TYPE_ACCELERATOR
            then map (devices_of_class CL_DEVICE_TYPE_ACCELERATOR) ?P else []"
  let ?G = "if permits ?t CL_DEVICE_TYPE_GPU
            then map (devices_of_class CL_DEVICE_TYPE_GPU) ?P else []"
  let ?C = "if permits ?t CL_DEVICE_TYPE_CPU
            then map (devices_of_class CL_DEVICE_TYPE_CPU) ?P else []"
  have enc: "first_suitable (encountered ?t ?P) =
    (case first_suitable ?A of Some found \<Rightarrow> Some found
     | None \<Rightarrow> (case first_suitable ?G of Some found \<Rightarrow> Some found
                 | None \<Rightarrow> first_suitable ?C))"
    by (simp only: encountered_classes first_suitable_append)
  show ?thesis
  proof (cases "first_suitable ?A")
    case (Some found)
    with class_first [of "[]" ?t CL_DEVICE_TYPE_ACCELERATOR ?P] assms enc show ?thesis
      by (simp add: InitializeDevices_def split: prod.splits)
  next
    case A: None
    with class_first [of "[]" ?t CL_DEVICE_TYPE_ACCELERATOR ?P] obtain devices1 where
      1: "(if permits ?t CL_DEVICE_TYPE_ACCELERATOR
           then BROWSE_DEVICES CL_DEVICE_TYPE_ACCELERATOR ?P 0 [] else Inr []) = Inr devices1"
         "\<forall>d \<in> set devices1. \<not> suitable d"
      by auto
    show ?thesis
    proof (cases "first_suitable ?G")
      case (Some found)
      with class_first [OF 1(2), of ?t CL_DEVICE_TYPE_GPU ?P] assms enc A 1(1) show ?thesis
        by (simp add: InitializeDevices_def split: prod.splits)
    next
      case G: None
      with class_first [OF 1(2), of ?t CL_DEVICE_TYPE_GPU ?P] obtain devices2 where
        2: "(if permits ?t CL_DEVICE_TYPE_GPU
             then BROWSE_DEVICES CL_DEVICE_TYPE_GPU ?P 0 devices1 else Inr devices1) = Inr devices2"
           "\<forall>d \<in> set devices2. \<not> suitable d"
        by auto
      show ?thesis
      proof (cases "first_suitable ?C")
        case (Some found)
        with class_first [OF 2(2), of ?t CL_DEVICE_TYPE_CPU ?P] assms enc A G 1(1) 2(1)
        show ?thesis
          by (simp add: InitializeDevices_def split: prod.splits)
      next
        case C: None
        with class_first [OF 2(2), of ?t CL_DEVICE_TYPE_CPU ?P] obtain devices3 where
          3: "(if permits ?t CL_DEVICE_TYPE_CPU
               then BROWSE_DEVICES CL_DEVICE_TYPE_CPU ?P 0 devices2 else Inr devices2) = Inr devices3"
          by auto
        with assms enc A G C 1(1) 2(1) show ?thesis
          by (simp add: InitializeDevices_def)
      qed
    qed
  qed
qed

text \<open>
  C2. When the device list is allocated, \<^verbatim>\<open>InitializeDevices\<close> goes through the classes in
  the order accelerator, GPU, CPU, each only when the target permits it, and through the
  platforms and their devices in their order. It selects the first device that is available
  and has a compiler: the device list becomes the list that holds it, its index there is
  recorded and \<^verbatim>\<open>CL_SUCCESS\<close> is returned. Without such a device it returns
  \<^verbatim>\<open>CL_DEVICE_NOT_FOUND\<close> and the device list is null.
\<close>

theorem InitializeDevices_first_suitable:
  assumes "new_vector rt"
  shows "(case first_suitable (encountered (mTargetDevice s) (Platform_get rt)) of
            Some (devices, j) \<Rightarrow>
              InitializeDevices rt s
                = (Return CL_SUCCESS, s\<lparr>mDevices := Some devices, mDevice := j\<rparr>) \<and>
              j < length devices \<and> suitable (devices ! j) \<and> (\<forall>k < j. \<not> suitable (devices ! k))
          | None \<Rightarrow>
              InitializeDevices rt s = (Return CL_DEVICE_NOT_FOUND, s\<lparr>mDevices := None\<rparr>))"
proof -
  let ?t = "mTargetDevice s" and ?P = "Platform_get rt"
  note run = InitializeDevices_search [OF assms, of s]
  show ?thesis
  proof (cases "first_suitable (encountered ?t ?P)")
    case None
    with run show ?thesis by simp
  next
    case (Some found)
    obtain devices j where "found = (devices, j)" by (cases found)
    with Some run first_suitable_index [of "encountered ?t ?P" devices j] show ?thesis
      by simp
  qed
qed


theorem InitializeDevices_first_suitable_witness:
  "new_vector workstation \<and>
   InitializeDevices workstation OpenCL_ctor
     = (Return CL_SUCCESS,
        OpenCL_ctor\<lparr>mDevices := Some [gpu_no_compiler, gpu_ok], mDevice := 1\<rparr>) \<and>
   InitializeDevices workstation (OpenCL_ctor\<lparr>mTargetDevice := CL_DEVICE_TYPE_CPU\<rparr>)
     = (Return CL_SUCCESS,
        OpenCL_ctor\<lparr>mTargetDevice := CL_DEVICE_TYPE_CPU, mDevices := Some [cpu_ok], mDevice := 0\<rparr>)"
proof -
  have nv: "new_vector workstation" by (simp add: workstation_def)
  have all: "first_suitable (encountered (mTargetDevice OpenCL_ctor) (Platform_get workstation))
      = Some ([gpu_no_compiler, gpu_ok], 1)"
    by (simp add: first_suitable_def encountered_def search_order_def permits_def
        devices_of_class_def suitable_def device_defs cl_device_type_defs workstation_def
        OpenCL_ctor_def)
  have cpu: "first_suitable
        (encountered (mTargetDevice (OpenCL_ctor\<lparr>mTargetDevice := CL_DEVICE_TYPE_CPU\<rparr>))
           (Platform_get workstation))
      = Some ([cpu_ok], 0)"
    by (simp add: first_suitable_def encountered_def search_order_def permits_def
        devices_of_class_def suitable_def device_defs cl_device_type_defs workstation_def)
  from InitializeDevices_first_suitable [OF nv, of OpenCL_ctor] all
  have 1: "InitializeDevices workstation OpenCL_ctor
     = (Return CL_SUCCESS,
        OpenCL_ctor\<lparr>mDevices := Some [gpu_no_compiler, gpu_ok], mDevice := 1\<rparr>)"
    by simp
  from InitializeDevices_first_suitable
         [OF nv, of "OpenCL_ctor\<lparr>mTargetDevice := CL_DEVICE_TYPE_CPU\<rparr>"] cpu
  have 2: "InitializeDevices workstation (OpenCL_ctor\<lparr>mTargetDevice := CL_DEVICE_TYPE_CPU\<rparr>)
     = (Return CL_SUCCESS,
        OpenCL_ctor\<lparr>mTargetDevice := CL_DEVICE_TYPE_CPU, mDevices := Some [cpu_ok], mDevice := 0\<rparr>)"
    by simp
  from nv 1 2 show ?thesis by simp
qed

section \<open>Lazy creation on first use\<close>

lemma mDevices_None_update: "mDevices s = None \<Longrightarrow> s\<lparr>mDevices := None\<rparr> = s"
  by (cases s) simp

lemma mContext_None_update: "mContext s = None \<Longrightarrow> s\<lparr>mContext := None\<rparr> = s"
  by (cases s) simp

lemma mQueue_None_update: "mQueue s = None \<Longrightarrow> s\<lparr>mQueue := None\<rparr> = s"
  by (cases s) simp

lemma InitializeDevices_lazy:
  assumes "mDevices s = None"
  shows "snd (InitializeDevices rt s) = lazy_devices rt s"
proof (cases "new_vector rt")
  case False
  with assms show ?thesis
    by (simp add: InitializeDevices_def lazy_devices_def mDevices_None_update)
next
  case True
  from InitializeDevices_search [OF True, of s] assms True show ?thesis
    by (simp add: lazy_devices_def mDevices_None_update split: option.splits prod.splits)
qed

lemma INIT_Devices_lazy:
  assumes "INIT (mDevices s = None) (InitializeDevices rt) s = (x, s1)"
  shows "s1 = lazy_devices rt s \<and> (x = None \<longleftrightarrow> mDevices s1 \<noteq> None)"
proof (cases "mDevices s = None")
  case False
  with assms show ?thesis by (auto simp: INIT_def lazy_devices_def)
next
  case True
  from INIT_cases [OF assms] True obtain r where
    r: "InitializeDevices rt s = (r, s1)" "if r = Return CL_SUCCESS then x = None else x = Some r"
    by auto
  from r(1) InitializeDevices_lazy [OF True, of rt] have "s1 = lazy_devices rt s" by simp
  moreover from InitializeDevices_result [OF r(1)] r(2) have "x = None \<longleftrightarrow> mDevices s1 \<noteq> None"
    by (auto split: if_splits)
  ultimately show ?thesis by simp
qed

lemma InitializeContext_lazy:
  assumes "mContext s = None"
  shows "snd (InitializeContext rt s) = lazy_context rt s"
proof -
  obtain x s1 where init: "INIT (mDevices s = None) (InitializeDevices rt) s = (x, s1)"
    by (cases "INIT (mDevices s = None) (InitializeDevices rt) s")
  from INIT_Devices_lazy [OF init]
  have s1: "s1 = lazy_devices rt s" and x: "x = None \<longleftrightarrow> mDevices s1 \<noteq> None" by simp_all
  from INIT_Devices_kept [OF init] INIT_cases [OF init] assms have c: "mContext s1 = None"
    by (auto dest: InitializeDevices_frame)
  show ?thesis
  proof (cases x)
    case (Some r)
    with x have "mDevices s1 = None" by simp
    with Some init s1 assms show ?thesis
      by (simp add: InitializeContext_def lazy_context_def Let_def)
  next
    case None
    with x obtain devices where d: "mDevices s1 = Some devices" by auto
    with None init s1 assms c show ?thesis
      by (auto simp: InitializeContext_def lazy_context_def Let_def mContext_None_update
          split: prod.splits)
  qed
qed

lemma INIT_Context_lazy:
  assumes "INIT (mContext s = None) (InitializeContext rt) s = (x, s1)"
  shows "s1 = lazy_context rt s \<and> (x = None \<longleftrightarrow> mContext s1 \<noteq> None)"
proof (cases "mContext s = None")
  case False
  with assms show ?thesis by (auto simp: INIT_def lazy_context_def)
next
  case True
  from INIT_cases [OF assms] True obtain r where
    r: "InitializeContext rt s = (r, s1)" "if r = Return CL_SUCCESS then x = None else x = Some r"
    by auto
  from r(1) InitializeContext_lazy [OF True, of rt] have "s1 = lazy_context rt s" by simp
  moreover from InitializeContext_result [OF r(1) True] r(2)
  have "x = None \<longleftrightarrow> mContext s1 \<noteq> None"
    by (auto split: if_splits)
  ultimately show ?thesis by simp
qed

lemma InitializeQueue_lazy:
  assumes "mQueue s = None"
  shows "snd (InitializeQueue rt s) = lazy_queue rt s"
proof -
  obtain x s1 where init: "INIT (mContext s = None) (InitializeContext rt) s = (x, s1)"
    by (cases "INIT (mContext s = None) (InitializeContext rt) s")
  from INIT_Context_lazy [OF init]
  have s1: "s1 = lazy_context rt s" and x: "x = None \<longleftrightarrow> mContext s1 \<noteq> None" by simp_all
  from INIT_cases [OF init] assms have q: "mQueue s1 = None"
    by (auto dest: InitializeContext_frame)
  show ?thesis
  proof (cases x)
    case (Some r)
    with x have "mContext s1 = None" by simp
    with Some init s1 assms show ?thesis
      by (simp add: InitializeQueue_def lazy_queue_def Let_def split: option.splits)
  next
    case None
    with init s1 assms q show ?thesis
      by (auto simp: InitializeQueue_def lazy_queue_def Let_def mQueue_None_update
          split: prod.splits option.splits)
  qed
qed

lemma INIT_Queue_lazy:
  assumes "INIT (mQueue s = None) (InitializeQueue rt) s = (x, s1)"
  shows "s1 = lazy_queue rt s"
proof (cases "mQueue s = None")
  case False
  with assms show ?thesis by (auto simp: INIT_def lazy_queue_def)
next
  case True
  from INIT_cases [OF assms] True obtain r where "InitializeQueue rt s = (r, s1)" by auto
  with InitializeQueue_lazy [OF True, of rt] show ?thesis by simp
qed


lemma GetUsedDevice_lazy:
  "snd (fst (GetUsedDevice rt s)) = lazy_devices rt s"
proof -
  obtain x s1 where init: "INIT (mDevices s = None) (InitializeDevices rt) s = (x, s1)"
    by (cases "INIT (mDevices s = None) (InitializeDevices rt) s")
  from init have "snd (fst (GetUsedDevice rt s)) = s1"
    by (auto simp: GetUsedDevice_def split: option.splits if_splits)
  with INIT_Devices_lazy [OF init] show ?thesis by simp
qed

lemma AllocateBuffer_lazy:
  "snd (AllocateBuffer rt Size s) = lazy_context rt s"
proof -
  obtain x s1 where init: "INIT (mContext s = None) (InitializeContext rt) s = (x, s1)"
    by (cases "INIT (mContext s = None) (InitializeContext rt) s")
  from init have "snd (AllocateBuffer rt Size s) = s1"
    by (auto simp: AllocateBuffer_def split: option.splits if_splits)
  with INIT_Context_lazy [OF init] show ?thesis by simp
qed

lemma GetProgramFromSource_lazy:
  "snd (GetProgramFromSource rt Source s) = lazy_context rt s \<and>
   (fst (GetProgramFromSource rt Source s) = Return CL_SUCCESS \<longleftrightarrow>
      mDevices (lazy_context rt s) \<noteq> None \<and> mContext (lazy_context rt s) \<noteq> None \<and>
      clCreateProgramWithSource rt = CL_SUCCESS \<and> clBuildProgram rt = CL_SUCCESS)"
proof -
  obtain x s1 where init: "INIT (mContext s = None) (InitializeContext rt) s = (x, s1)"
    by (cases "INIT (mContext s = None) (InitializeContext rt) s")
  from INIT_Context_lazy [OF init]
  have s1: "s1 = lazy_context rt s" and x: "x = None \<longleftrightarrow> mContext s1 \<noteq> None" by simp_all
  show ?thesis
  proof (cases x)
    case (Some r)
    with x have "mContext s1 = None" by simp
    moreover from INIT_early [of "mContext s = None" "InitializeContext rt" s r s1] init Some
    have "r \<noteq> Return CL_SUCCESS" by simp
    ultimately show ?thesis using Some init s1
      by (simp add: GetProgramFromSource_def)
  next
    case None
    with x have "mContext s1 \<noteq> None" by simp
    with None init s1 show ?thesis
      by (auto simp: GetProgramFromSource_def)
  qed
qed

lemma GetKernelFromSource_lazy:
  "snd (GetKernelFromSource rt Source KernelName s) = lazy_context rt s \<and>
   (fst (GetKernelFromSource rt Source KernelName s) = Return CL_SUCCESS \<longleftrightarrow>
      mDevices (lazy_context rt s) \<noteq> None \<and> mContext (lazy_context rt s) \<noteq> None \<and>
      clCreateProgramWithSource rt = CL_SUCCESS \<and> clBuildProgram rt = CL_SUCCESS \<and>
      clCreateKernel rt = CL_SUCCESS)"
proof -
  obtain r1 s1 where p: "GetProgramFromSource rt Source s = (r1, s1)"
    by (cases "GetProgramFromSource rt Source s")
  from GetProgramFromSource_lazy [of rt Source s] p
  have s1: "s1 = lazy_context rt s"
    and r1: "r1 = Return CL_SUCCESS \<longleftrightarrow>
      mDevices (lazy_context rt s) \<noteq> None \<and> mContext (lazy_context rt s) \<noteq> None \<and>
      clCreateProgramWithSource rt = CL_SUCCESS \<and> clBuildProgram rt = CL_SUCCESS"
    by simp_all
  show ?thesis
  proof (cases "r1 = Return CL_SUCCESS")
    case True
    with p s1 r1 show ?thesis
      by (simp add: GetKernelFromSource_def GetKernelFromProgram_def)
  next
    case False
    with p have "GetKernelFromSource rt Source KernelName s = (r1, s1)"
      by (auto simp: GetKernelFromSource_def split: result.splits)
    with False s1 r1 show ?thesis by auto
  qed
qed

lemma enqueue_after_INIT_lazy:
  assumes init: "INIT (mQueue s = None) (InitializeQueue rt) s = (x, s1)"
    and body: "(r, s') =
      (case x of
         Some r0 \<Rightarrow> (r0, s1)
       | None \<Rightarrow>
          if mDevices s1 = None then (Abort, s1)
          else if mContext s1 = None then (Abort, s1)
          else if mQueue s1 = None then (Abort, s1)
          else
            (case enqueue rt (mEvent s1) of (Error, event) \<Rightarrow>
               (Return Error, s1\<lparr>mEvent := event\<rparr>)))"
  shows "\<exists>event. s' = (lazy_queue rt s)\<lparr>mEvent := event\<rparr>"
proof -
  from INIT_Queue_lazy [OF init] have s1: "s1 = lazy_queue rt s" .
  have same: "s1 = s1\<lparr>mEvent := mEvent s1\<rparr>" by simp
  from body have "s' = s1 \<or> (\<exists>event. s' = s1\<lparr>mEvent := event\<rparr>)"
    by (auto split: option.splits if_splits prod.splits)
  with same s1 show ?thesis by metis
qed

lemma ReadBuffer_lazy:
  "\<exists>event. snd (ReadBuffer rt Size s) = (lazy_queue rt s)\<lparr>mEvent := event\<rparr>"
proof -
  obtain x s1 where init: "INIT (mQueue s = None) (InitializeQueue rt) s = (x, s1)"
    by (cases "INIT (mQueue s = None) (InitializeQueue rt) s")
  obtain r s' where c: "ReadBuffer rt Size s = (r, s')" by (cases "ReadBuffer rt Size s")
  have "\<exists>event. s' = (lazy_queue rt s)\<lparr>mEvent := event\<rparr>"
    by (rule enqueue_after_INIT_lazy [OF init, of r])
       (use c init in \<open>simp add: ReadBuffer_def split: option.splits\<close>)
  with c show ?thesis by simp
qed

lemma WriteBuffer_lazy:
  "\<exists>event. snd (WriteBuffer rt Size s) = (lazy_queue rt s)\<lparr>mEvent := event\<rparr>"
proof -
  obtain x s1 where init: "INIT (mQueue s = None) (InitializeQueue rt) s = (x, s1)"
    by (cases "INIT (mQueue s = None) (InitializeQueue rt) s")
  obtain r s' where c: "WriteBuffer rt Size s = (r, s')" by (cases "WriteBuffer rt Size s")
  have "\<exists>event. s' = (lazy_queue rt s)\<lparr>mEvent := event\<rparr>"
    by (rule enqueue_after_INIT_lazy [OF init, of r])
       (use c init in \<open>simp add: WriteBuffer_def split: option.splits\<close>)
  with c show ?thesis by simp
qed

lemma ExecuteKernelFromKernelEx_lazy:
  "\<exists>event. snd (ExecuteKernelFromKernelEx rt DataSize Position KernelArgs s)
     = (lazy_queue rt s)\<lparr>mEvent := event\<rparr>"
proof (induction KernelArgs arbitrary: Position)
  case Nil
  obtain x s1 where init: "INIT (mQueue s = None) (InitializeQueue rt) s = (x, s1)"
    by (cases "INIT (mQueue s = None) (InitializeQueue rt) s")
  obtain r s' where c: "ExecuteKernelFromKernelEx rt DataSize Position [] s = (r, s')"
    by (meson surj_pair)
  have "\<exists>event. s' = (lazy_queue rt s)\<lparr>mEvent := event\<rparr>"
    by (rule enqueue_after_INIT_lazy [OF init, of r])
       (use c init in \<open>auto split: option.splits prod.splits if_splits\<close>)
  with c show ?case by simp
next
  case (Cons KernelArg KernelArgs)
  then show ?case by simp
qed


lemma ExecuteKernelFromSource_lazy:
  "\<exists>event. snd (ExecuteKernelFromSource rt Source KernelName DataSize KernelArgs s)
     = (first_use rt (Op_ExecuteKernelFromSource Source KernelName DataSize KernelArgs) s)
          \<lparr>mEvent := event\<rparr>"
proof -
  obtain r1 s1 where k: "GetKernelFromSource rt Source KernelName s = (r1, s1)"
    by (cases "GetKernelFromSource rt Source KernelName s")
  from GetKernelFromSource_lazy [of rt Source KernelName s] k
  have s1: "s1 = lazy_context rt s"
    and r1: "r1 = Return CL_SUCCESS \<longleftrightarrow>
      mDevices (lazy_context rt s) \<noteq> None \<and> mContext (lazy_context rt s) \<noteq> None \<and>
      clCreateProgramWithSource rt = CL_SUCCESS \<and> clBuildProgram rt = CL_SUCCESS \<and>
      clCreateKernel rt = CL_SUCCESS"
    by simp_all
  show ?thesis
  proof (cases "r1 = Return CL_SUCCESS")
    case True
    with k have "ExecuteKernelFromSource rt Source KernelName DataSize KernelArgs s
        = ExecuteKernelFromKernelEx rt DataSize 0 KernelArgs s1"
      by (simp add: ExecuteKernelFromSource_def)
    moreover from True r1 s1
    have "first_use rt (Op_ExecuteKernelFromSource Source KernelName DataSize KernelArgs) s
        = lazy_queue rt s1"
      by (simp add: Let_def)
    ultimately show ?thesis
      using ExecuteKernelFromKernelEx_lazy [of rt DataSize 0 KernelArgs s1] by simp
  next
    case False
    with k have "ExecuteKernelFromSource rt Source KernelName DataSize KernelArgs s = (r1, s1)"
      by (auto simp: ExecuteKernelFromSource_def split: result.splits)
    moreover from False r1 s1
    have "first_use rt (Op_ExecuteKernelFromSource Source KernelName DataSize KernelArgs) s = s1"
      by (auto simp: Let_def)
    moreover have "s1 = s1\<lparr>mEvent := mEvent s1\<rparr>" by simp
    ultimately show ?thesis by (metis snd_conv)
  qed
qed

lemma ExecuteKernelFromProgram_lazy:
  "\<exists>event. snd (ExecuteKernelFromProgram rt KernelName DataSize KernelArgs s)
     = (first_use rt (Op_ExecuteKernelFromProgram KernelName DataSize KernelArgs) s)
          \<lparr>mEvent := event\<rparr>"
proof (cases "clCreateKernel rt = CL_SUCCESS")
  case True
  then have "ExecuteKernelFromProgram rt KernelName DataSize KernelArgs s
      = ExecuteKernelFromKernelEx rt DataSize 0 KernelArgs s"
    by (simp add: ExecuteKernelFromProgram_def GetKernelFromProgram_def)
  with True ExecuteKernelFromKernelEx_lazy [of rt DataSize 0 KernelArgs s] show ?thesis
    by simp
next
  case False
  then have "snd (ExecuteKernelFromProgram rt KernelName DataSize KernelArgs s) = s"
    by (simp add: ExecuteKernelFromProgram_def GetKernelFromProgram_def)
  moreover have "s = s\<lparr>mEvent := mEvent s\<rparr>" by simp
  ultimately show ?thesis using False by (metis first_use.simps(6))
qed

lemma call_first_use:
  "mDevices (snd (call rt op s)) = mDevices (first_use rt op s) \<and>
   mDevice (snd (call rt op s)) = mDevice (first_use rt op s) \<and>
   mContext (snd (call rt op s)) = mContext (first_use rt op s) \<and>
   mQueue (snd (call rt op s)) = mQueue (first_use rt op s)"
proof (cases op)
  case (Op_AllocateBuffer Size)
  then show ?thesis by (simp add: AllocateBuffer_lazy)
next
  case Op_GetUsedDevice
  then show ?thesis by (simp add: GetUsedDevice_lazy)
next
  case (Op_GetProgramFromSource Source)
  then show ?thesis by (simp add: GetProgramFromSource_lazy)
next
  case (Op_GetKernelFromSource Source KernelName)
  then show ?thesis by (simp add: GetKernelFromSource_lazy)
next
  case (Op_GetKernelFromProgram KernelName)
  then show ?thesis by (simp add: GetKernelFromProgram_def)
next
  case Op_GetLastElapsedTime
  then show ?thesis by simp
next
  case (Op_ExecuteKernelFromSource Source KernelName DataSize KernelArgs)
  from ExecuteKernelFromSource_lazy [of rt Source KernelName DataSize KernelArgs s]
  obtain event where
    "snd (ExecuteKernelFromSource rt Source KernelName DataSize KernelArgs s)
       = (first_use rt (Op_ExecuteKernelFromSource Source KernelName DataSize KernelArgs) s)
            \<lparr>mEvent := event\<rparr>" ..
  with Op_ExecuteKernelFromSource show ?thesis by (simp del: first_use.simps)
next
  case (Op_ExecuteKernelFromProgram KernelName DataSize KernelArgs)
  from ExecuteKernelFromProgram_lazy [of rt KernelName DataSize KernelArgs s]
  obtain event where
    "snd (ExecuteKernelFromProgram rt KernelName DataSize KernelArgs s)
       = (first_use rt (Op_ExecuteKernelFromProgram KernelName DataSize KernelArgs) s)
            \<lparr>mEvent := event\<rparr>" ..
  with Op_ExecuteKernelFromProgram show ?thesis by (simp del: first_use.simps)
next
  case (Op_ExecuteKernelFromKernel DataSize KernelArgs)
  from ExecuteKernelFromKernelEx_lazy [of rt DataSize 0 KernelArgs s]
  obtain event where
    "snd (ExecuteKernelFromKernelEx rt DataSize 0 KernelArgs s)
       = (lazy_queue rt s)\<lparr>mEvent := event\<rparr>" ..
  with Op_ExecuteKernelFromKernel show ?thesis by (simp add: ExecuteKernelFromKernel_def)
next
  case (Op_ReadBuffer Size)
  from ReadBuffer_lazy [of rt Size s] obtain event where
    "snd (ReadBuffer rt Size s) = (lazy_queue rt s)\<lparr>mEvent := event\<rparr>" ..
  with Op_ReadBuffer show ?thesis by simp
next
  case (Op_SetParameter Parameter Value)
  then show ?thesis
    by (auto simp: SetParameter_def split: OpenCLParameters.splits prod.splits if_splits)
next
  case (Op_SetParameter_string Parameter Value)
  then show ?thesis
    by (auto simp: SetParameter_string_def split: OpenCLParameters.splits prod.splits)
next
  case Op_WaitForLastEvent
  then show ?thesis by simp
next
  case (Op_WriteBuffer Size)
  from WriteBuffer_lazy [of rt Size s] obtain event where
    "snd (WriteBuffer rt Size s) = (lazy_queue rt s)\<lparr>mEvent := event\<rparr>" ..
  with Op_WriteBuffer show ?thesis by simp
qed

text \<open>
  C6. The constructor creates nothing. A call of a public member function that needs the
  device list, the context or the queue creates each of them that is still null, in that
  order, when the allocation and the runtime succeed: after the call the members are those
  of the lazy creation for that function. Over any sequence of calls, a device list (with
  the index of the selected device), a context or a queue that is not null stays the one
  it is: the functions initialise a member only when it is null, and none replaces or
  re-creates it.
\<close>

theorem lazy_members_created_once:
  "mDevices OpenCL_ctor = None \<and> mContext OpenCL_ctor = None \<and> mQueue OpenCL_ctor = None \<and>
   (mDevices s \<noteq> None \<longrightarrow>
      mDevices (calls tr s) = mDevices s \<and> mDevice (calls tr s) = mDevice s) \<and>
   (mContext s \<noteq> None \<longrightarrow> mContext (calls tr s) = mContext s) \<and>
   (mQueue s \<noteq> None \<longrightarrow> mQueue (calls tr s) = mQueue s) \<and>
   mDevices (snd (call rt op s)) = mDevices (first_use rt op s) \<and>
   mDevice (snd (call rt op s)) = mDevice (first_use rt op s) \<and>
   mContext (snd (call rt op s)) = mContext (first_use rt op s) \<and>
   mQueue (snd (call rt op s)) = mQueue (first_use rt op s)"
  using calls_kept [of s tr] call_first_use [of rt op s]
  by (simp add: members_kept_def OpenCL_ctor_def)

theorem lazy_members_created_once_witness:
  "mDevices (snd (call workstation (Op_WriteBuffer 4 :: unit operation) OpenCL_ctor))
     = Some [gpu_no_compiler, gpu_ok] \<and>
   mDevice (snd (call workstation (Op_WriteBuffer 4 :: unit operation) OpenCL_ctor)) = 1 \<and>
   mContext (snd (call workstation (Op_WriteBuffer 4 :: unit operation) OpenCL_ctor))
     = Some (Context [gpu_no_compiler, gpu_ok] 1) \<and>
   mQueue (snd (call workstation (Op_WriteBuffer 4 :: unit operation) OpenCL_ctor))
     = Some (CommandQueue (Context [gpu_no_compiler, gpu_ok] 1) gpu_ok 2) \<and>
   mDevices (calls [(no_platform, Op_ReadBuffer 4 :: unit operation),
                    (context_failure, Op_AllocateBuffer 8)] with_queue) = mDevices with_queue \<and>
   mDevice (calls [(no_platform, Op_ReadBuffer 4 :: unit operation),
                   (context_failure, Op_AllocateBuffer 8)] with_queue) = mDevice with_queue \<and>
   mContext (calls [(no_platform, Op_ReadBuffer 4 :: unit operation),
                    (context_failure, Op_AllocateBuffer 8)] with_queue) = mContext with_queue \<and>
   mQueue (calls [(no_platform, Op_ReadBuffer 4 :: unit operation),
                  (context_failure, Op_AllocateBuffer 8)] with_queue) = mQueue with_queue"
proof -
  have found: "first_suitable (encountered CL_DEVICE_TYPE_ALL (Platform_get workstation))
      = Some ([gpu_no_compiler, gpu_ok], 1)"
    by (simp add: first_suitable_def encountered_def search_order_def permits_def
        devices_of_class_def suitable_def device_defs cl_device_type_defs workstation_def)
  have rt: "new_vector workstation" "new_Context workstation"
    "clCreateContext workstation = (CL_SUCCESS, 1)"
    "new_CommandQueue workstation" "clCreateCommandQueue workstation = (CL_SUCCESS, 2)"
    by (simp_all add: workstation_def)
  have first: "first_use workstation (Op_WriteBuffer 4 :: unit operation) OpenCL_ctor = with_queue"
    by (simp add: lazy_queue_def lazy_context_def lazy_devices_def OpenCL_ctor_def found rt
        with_queue_def with_context_def with_devices_def)
  have members: "mDevices with_queue = Some [gpu_no_compiler, gpu_ok]" "mDevice with_queue = 1"
    "mContext with_queue = Some (Context [gpu_no_compiler, gpu_ok] 1)"
    "mQueue with_queue = Some (CommandQueue (Context [gpu_no_compiler, gpu_ok] 1) gpu_ok 2)"
    by (simp_all add: with_queue_def with_context_def with_devices_def)
  from lazy_members_created_once
         [where s = OpenCL_ctor and rt = workstation and op = "Op_WriteBuffer 4 :: unit operation"]
  have "mDevices (snd (call workstation (Op_WriteBuffer 4 :: unit operation) OpenCL_ctor))
       = mDevices (first_use workstation (Op_WriteBuffer 4 :: unit operation) OpenCL_ctor)"
    "mDevice (snd (call workstation (Op_WriteBuffer 4 :: unit operation) OpenCL_ctor))
       = mDevice (first_use workstation (Op_WriteBuffer 4 :: unit operation) OpenCL_ctor)"
    "mContext (snd (call workstation (Op_WriteBuffer 4 :: unit operation) OpenCL_ctor))
       = mContext (first_use workstation (Op_WriteBuffer 4 :: unit operation) OpenCL_ctor)"
    "mQueue (snd (call workstation (Op_WriteBuffer 4 :: unit operation) OpenCL_ctor))
       = mQueue (first_use workstation (Op_WriteBuffer 4 :: unit operation) OpenCL_ctor)"
    by blast+
  then have created:
    "mDevices (snd (call workstation (Op_WriteBuffer 4 :: unit operation) OpenCL_ctor))
       = Some [gpu_no_compiler, gpu_ok]"
    "mDevice (snd (call workstation (Op_WriteBuffer 4 :: unit operation) OpenCL_ctor)) = 1"
    "mContext (snd (call workstation (Op_WriteBuffer 4 :: unit operation) OpenCL_ctor))
       = Some (Context [gpu_no_compiler, gpu_ok] 1)"
    "mQueue (snd (call workstation (Op_WriteBuffer 4 :: unit operation) OpenCL_ctor))
       = Some (CommandQueue (Context [gpu_no_compiler, gpu_ok] 1) gpu_ok 2)"
    by (simp_all only: first members)
  have "mDevices with_queue \<noteq> None" "mContext with_queue \<noteq> None" "mQueue with_queue \<noteq> None"
    using members by simp_all
  with lazy_members_created_once
         [where s = with_queue and tr = "[(no_platform, Op_ReadBuffer 4 :: unit operation),
                                          (context_failure, Op_AllocateBuffer 8)]"]
  have kept:
    "mDevices (calls [(no_platform, Op_ReadBuffer 4 :: unit operation),
                    (context_failure, Op_AllocateBuffer 8)] with_queue) = mDevices with_queue"
    "mDevice (calls [(no_platform, Op_ReadBuffer 4 :: unit operation),
                   (context_failure, Op_AllocateBuffer 8)] with_queue) = mDevice with_queue"
    "mContext (calls [(no_platform, Op_ReadBuffer 4 :: unit operation),
                    (context_failure, Op_AllocateBuffer 8)] with_queue) = mContext with_queue"
    "mQueue (calls [(no_platform, Op_ReadBuffer 4 :: unit operation),
                  (context_failure, Op_AllocateBuffer 8)] with_queue) = mQueue with_queue"
    by blast+
  from created kept show ?thesis by simp
qed

end
